theory Spec2Isabelle
  imports Complex_Main "HOL-Library.Word"
begin

unbundle bit_operations_syntax

section \<open>Machine types\<close>

type_synonym u8 = "8 word"
type_synonym u16 = "16 word"
type_synonym u32 = "32 word"
type_synonym u64 = "64 word"

section \<open>Hamming distance (phash.go)\<close>

text \<open>
  \<^verbatim>\<open>bits.OnesCount64\<close> of the Go standard library: the number of one bits of a
  64-bit value.
\<close>

definition OnesCount64 :: "u64 \<Rightarrow> int" where
  "OnesCount64 x = int (length (filter (\<lambda>i. bit x i) [0..<64]))"

text \<open>\<^verbatim>\<open>func HammingDistance(a, b uint64) int { return bits.OnesCount64(a ^ b) }\<close>\<close>

definition HammingDistance :: "u64 \<Rightarrow> u64 \<Rightarrow> int" where
  "HammingDistance a b = OnesCount64 (a XOR b)"

section \<open>Orientation detector (EXIF orientation of a JPEG payload)\<close>

text \<open>
  Go's \<^verbatim>\<open>int\<close> is 32 bits wide on the 32-bit targets (\<^verbatim>\<open>386\<close>, \<^verbatim>\<open>arm\<close>) and 64 bits
  wide on the others, and its arithmetic wraps around silently. The width is the
  parameter \<open>sz\<close> of the model; a value of the type \<^verbatim>\<open>int\<close> is an integer, and
  \<open>goInt sz\<close> reduces the exact result of a conversion, a sum or a product into the
  range \<open>- 2 ^ (w - 1) .. 2 ^ (w - 1) - 1\<close> of the width \<open>w\<close>, as the machine does.
\<close>

datatype IntSize = Int32 | Int64

definition intBits :: "IntSize \<Rightarrow> nat" where
  "intBits sz = (case sz of Int32 \<Rightarrow> 32 | Int64 \<Rightarrow> 64)"

definition goInt :: "IntSize \<Rightarrow> int \<Rightarrow> int" where
  "goInt sz x = (x + 2 ^ (intBits sz - 1)) mod 2 ^ intBits sz - 2 ^ (intBits sz - 1)"

text \<open>
  A byte slice is a list of bytes, and \<^verbatim>\<open>len(s)\<close> is \<open>int (length s)\<close> (a slice has
  no more elements than the largest \<^verbatim>\<open>int\<close>). A run-time panic (index or slice
  bounds out of range) is the value \<open>None\<close> of the outer option; the Go result pair
  \<^verbatim>\<open>(int, bool)\<close> is kept as a pair. Slicing is checked against the length of the
  slice, which is at least as strict as Go's check against its capacity.
\<close>

definition index :: "'a list \<Rightarrow> int \<Rightarrow> 'a option" where
  "index s i = (if 0 \<le> i \<and> i < int (length s) then Some (s ! nat i) else None)"

definition subslice :: "'a list \<Rightarrow> int \<Rightarrow> int \<Rightarrow> 'a list option" where
  "subslice s lo hi =
     (if 0 \<le> lo \<and> lo \<le> hi \<and> hi \<le> int (length s)
      then Some (take (nat (hi - lo)) (drop (nat lo) s)) else None)"

datatype ByteOrder = LittleEndian | BigEndian

text \<open>
  \<^verbatim>\<open>binary.ByteOrder.Uint16\<close> and \<^verbatim>\<open>Uint32\<close> of \<^verbatim>\<open>encoding/binary\<close>: both first
  touch the last byte they need, which panics on a short slice.
\<close>

definition Uint16 :: "ByteOrder \<Rightarrow> u8 list \<Rightarrow> u16 option" where
  "Uint16 order b =
     (case index b 1 of None \<Rightarrow> None
      | Some b1 \<Rightarrow>
          (case index b 0 of None \<Rightarrow> None
           | Some b0 \<Rightarrow>
               Some (case order of
                       BigEndian \<Rightarrow> ucast b1 OR push_bit 8 (ucast b0)
                     | LittleEndian \<Rightarrow> ucast b0 OR push_bit 8 (ucast b1))))"

definition Uint32 :: "ByteOrder \<Rightarrow> u8 list \<Rightarrow> u32 option" where
  "Uint32 order b =
     (case index b 3 of None \<Rightarrow> None
      | Some b3 \<Rightarrow>
          (case (index b 0, index b 1, index b 2) of
             (Some b0, Some b1, Some b2) \<Rightarrow>
               Some (case order of
                       BigEndian \<Rightarrow>
                         ucast b3 OR push_bit 8 (ucast b2) OR push_bit 16 (ucast b1)
                           OR push_bit 24 (ucast b0)
                     | LittleEndian \<Rightarrow>
                         ucast b0 OR push_bit 8 (ucast b1) OR push_bit 16 (ucast b2)
                           OR push_bit 24 (ucast b3))
           | _ \<Rightarrow> None))"

text \<open>The result \<^verbatim>\<open>return 0, false\<close>.\<close>

abbreviation notFound :: "(int \<times> bool) option" where
  "notFound \<equiv> Some (0, False)"

text \<open>
  The body of one iteration of the loop over the IFD entries of
  \<^verbatim>\<open>parseExifOrientation\<close>, once the entry is known to lie inside the buffer:
  \<open>None\<close> of the inner option is \<^verbatim>\<open>continue\<close>, \<open>Some r\<close> is \<^verbatim>\<open>return r\<close>. The
  conversion \<^verbatim>\<open>int(value)\<close> of a 16-bit value fits every width.
\<close>

definition ifdEntry :: "IntSize \<Rightarrow> ByteOrder \<Rightarrow> u8 list \<Rightarrow> int \<Rightarrow> (int \<times> bool) option option" where
  "ifdEntry sz order tiff entryOffset =
     (case Option.bind (subslice tiff entryOffset (goInt sz (entryOffset + 2))) (Uint16 order) of
        None \<Rightarrow> None
      | Some tag \<Rightarrow>
          if tag \<noteq> 0x0112 then Some None
          else
            (case Option.bind
                    (subslice tiff (goInt sz (entryOffset + 2)) (goInt sz (entryOffset + 4)))
                    (Uint16 order) of
               None \<Rightarrow> None
             | Some typ \<Rightarrow>
                 (case Option.bind
                         (subslice tiff (goInt sz (entryOffset + 4)) (goInt sz (entryOffset + 8)))
                         (Uint32 order) of
                    None \<Rightarrow> None
                  | Some count \<Rightarrow>
                      if typ \<noteq> 3 \<or> count \<noteq> 1 then Some (Some (0, False))
                      else
                        (case Option.bind
                                (subslice tiff (goInt sz (entryOffset + 8))
                                   (goInt sz (entryOffset + 10)))
                                (Uint16 order) of
                           None \<Rightarrow> None
                         | Some v \<Rightarrow>
                             if 1 \<le> v \<and> v \<le> 8 then Some (Some (uint v, True))
                             else Some (Some (0, False))))))"

text \<open>
  \<^verbatim>\<open>for n := 0; n < entryCount; n++ { ... }\<close> followed by \<^verbatim>\<open>return 0, false\<close>. The
  increment \<^verbatim>\<open>n++\<close> runs under \<^verbatim>\<open>n < entryCount\<close>, so \<open>n + 1\<close> is at most
  \<^verbatim>\<open>entryCount\<close> and never leaves the range of \<^verbatim>\<open>int\<close>: it is the one sum written
  without \<open>goInt\<close>.
\<close>

function ifdEntries ::
  "IntSize \<Rightarrow> ByteOrder \<Rightarrow> u8 list \<Rightarrow> int \<Rightarrow> int \<Rightarrow> int \<Rightarrow> (int \<times> bool) option" where
  "ifdEntries sz order tiff entriesBase entryCount n =
     (if n < entryCount then
        (let entryOffset = goInt sz (entriesBase + goInt sz (n * 12)) in
         if goInt sz (entryOffset + 12) > int (length tiff) then notFound
         else
           (case ifdEntry sz order tiff entryOffset of
              None \<Rightarrow> None
            | Some None \<Rightarrow> ifdEntries sz order tiff entriesBase entryCount (n + 1)
            | Some (Some r) \<Rightarrow> Some r))
      else notFound)"
  by pat_completeness auto
termination
  by (relation "measure (\<lambda>(sz, order, tiff, entriesBase, entryCount, n). nat (entryCount - n))") auto

declare ifdEntries.simps [simp del]

text \<open>
  \<^verbatim>\<open>parseExifOrientation\<close>, in two parts: \<open>parseTIFF\<close> is the body that follows the
  \<^verbatim>\<open>switch\<close> on the byte order mark (\<^verbatim>\<open>II\<close> or \<^verbatim>\<open>MM\<close>), for the order it has chosen.
  \<^verbatim>\<open>ifdOffset := int(order.Uint32(tiff[4:8]))\<close> converts a 32-bit unsigned value,
  which is negative in a 32-bit \<^verbatim>\<open>int\<close> from \<open>2 ^ 31\<close> on; the guard
  \<^verbatim>\<open>ifdOffset < 0 || ifdOffset+2 > len(tiff)\<close> and the slice
  \<^verbatim>\<open>tiff[ifdOffset : ifdOffset+2]\<close> both compute \<^verbatim>\<open>ifdOffset+2\<close> in \<^verbatim>\<open>int\<close>.
\<close>

definition parseTIFF :: "IntSize \<Rightarrow> ByteOrder \<Rightarrow> u8 list \<Rightarrow> (int \<times> bool) option" where
  "parseTIFF sz order tiff =
     (case Option.bind (subslice tiff 2 4) (Uint16 order) of
        None \<Rightarrow> None
      | Some magic \<Rightarrow>
          if magic \<noteq> 0x002A then notFound
          else
            (case Option.bind (subslice tiff 4 8) (Uint32 order) of
               None \<Rightarrow> None
             | Some off \<Rightarrow>
                 (let ifdOffset = goInt sz (uint off) in
                  if ifdOffset < 0 \<or> goInt sz (ifdOffset + 2) > int (length tiff) then notFound
                  else
                    (case Option.bind (subslice tiff ifdOffset (goInt sz (ifdOffset + 2)))
                            (Uint16 order) of
                       None \<Rightarrow> None
                     | Some ec \<Rightarrow>
                         (let entryCount = uint ec in
                          if entryCount < 0 \<or> entryCount > 256 then notFound
                          else
                            (let entriesBase = goInt sz (ifdOffset + 2) in
                             ifdEntries sz order tiff entriesBase entryCount 0))))))"

definition parseExifOrientation :: "IntSize \<Rightarrow> u8 list \<Rightarrow> (int \<times> bool) option" where
  "parseExifOrientation sz tiff =
     (if int (length tiff) < 8 then notFound
      else
        (case (index tiff 0, index tiff 1) of
           (Some t0, Some t1) \<Rightarrow>
             if t0 = 0x49 \<and> t1 = 0x49 then parseTIFF sz LittleEndian tiff
             else if t0 = 0x4D \<and> t1 = 0x4D then parseTIFF sz BigEndian tiff
             else notFound
         | _ \<Rightarrow> None))"

text \<open>\<^verbatim>\<open>var exifHeader = []byte("Exif\x00\x00")\<close>\<close>

definition exifHeader :: "u8 list" where
  "exifHeader = [0x45, 0x78, 0x69, 0x66, 0x00, 0x00]"

text \<open>\<^verbatim>\<open>bytes.HasPrefix(s, prefix)\<close>\<close>

definition HasPrefix :: "u8 list \<Rightarrow> u8 list \<Rightarrow> bool" where
  "HasPrefix s p = (length s \<ge> length p \<and> take (length p) s = p)"

text \<open>
  The APP1 branch of the marker loop: \<open>Some None\<close> when the segment holds no
  orientation (the loop goes on at \<^verbatim>\<open>segEnd\<close>), \<open>Some (Some r)\<close> for
  \<^verbatim>\<open>return orientation, true\<close>.
\<close>

definition app1Segment :: "IntSize \<Rightarrow> u8 list \<Rightarrow> int \<Rightarrow> int \<Rightarrow> (int \<times> bool) option option" where
  "app1Segment sz data i segEnd =
     (case subslice data (goInt sz (i + 2)) segEnd of
        None \<Rightarrow> None
      | Some segment \<Rightarrow>
          if int (length segment) \<ge> 6 \<and> HasPrefix segment exifHeader then
            (case subslice segment 6 (int (length segment)) of
               None \<Rightarrow> None
             | Some tiff \<Rightarrow>
                 (case parseExifOrientation sz tiff of
                    None \<Rightarrow> None
                  | Some (orientation, ok) \<Rightarrow>
                      if ok then Some (Some (orientation, True)) else Some None))
          else Some None)"

text \<open>
  The marker loop \<^verbatim>\<open>for i := 2; i+4 <= len(data); { ... }\<close> of
  \<^verbatim>\<open>exifOrientationJPEG\<close>, from the position \<open>i\<close>, with the final
  \<^verbatim>\<open>return 0, false\<close> that every \<^verbatim>\<open>break\<close> reaches. The loop ends for every width:
  an iteration goes on only from a position inside the payload, and from there the
  next position is either larger or, after a wrap-around, negative, where the next
  read panics.
\<close>

function markerLoop :: "IntSize \<Rightarrow> u8 list \<Rightarrow> int \<Rightarrow> (int \<times> bool) option" where
  "markerLoop sz data i =
     (if goInt sz (i + 4) \<le> int (length data) then
        (case index data i of
           None \<Rightarrow> None
         | Some b \<Rightarrow>
             if b \<noteq> 0xFF then markerLoop sz data (goInt sz (i + 1))
             else if goInt sz (i + 1) \<ge> int (length data) then notFound
             else
               (case index data (goInt sz (i + 1)) of
                  None \<Rightarrow> None
                | Some marker \<Rightarrow>
                    (let i' = goInt sz (i + 2) in
                     if marker = 0xD9 \<or> marker = 0xDA then notFound
                     else if marker = 0x01 \<or> (marker \<ge> 0xD0 \<and> marker \<le> 0xD7)
                       then markerLoop sz data i'
                     else if goInt sz (i' + 2) > int (length data) then notFound
                     else
                       (case Option.bind (subslice data i' (goInt sz (i' + 2)))
                               (Uint16 BigEndian) of
                          None \<Rightarrow> None
                        | Some sl \<Rightarrow>
                            (let segLen = uint sl in
                             if segLen < 2 then notFound
                             else
                               (let segEnd = goInt sz (i' + segLen) in
                                if segEnd > int (length data) then notFound
                                else if marker = 0xE1 \<and> segLen \<ge> 8 then
                                  (case app1Segment sz data i' segEnd of
                                     None \<Rightarrow> None
                                   | Some (Some r) \<Rightarrow> Some r
                                   | Some None \<Rightarrow> markerLoop sz data segEnd)
                                else markerLoop sz data segEnd))))))
      else notFound)"
  by pat_completeness auto
termination
proof -
  have pw: "(2::int) ^ intBits sz = 2 * 2 ^ (intBits sz - 1) \<and> (65538::int) < 2 ^ (intBits sz - 1)" for sz
    by (cases sz) (simp_all add: intBits_def)
  have R: "goInt sz x < 2 ^ (intBits sz - 1)" for sz x
  proof -
    have "(x + 2 ^ (intBits sz - 1)) mod 2 ^ intBits sz < 2 ^ intBits sz"
      by simp
    then show ?thesis
      using pw [of sz] by (simp add: goInt_def)
  qed
  have K: "goInt sz (x + k) = x + k"
    if "0 \<le> x" "x < 2 ^ (intBits sz - 1)" "0 \<le> k" "k < 65536" "0 \<le> goInt sz (x + k)" for sz x k
  proof (cases "x + k < 2 ^ (intBits sz - 1)")
    case True
    then have "(x + k + 2 ^ (intBits sz - 1)) mod 2 ^ intBits sz = x + k + 2 ^ (intBits sz - 1)"
      using that(1,3) pw [of sz] by (intro mod_pos_pos_trivial) auto
    then show ?thesis by (simp add: goInt_def)
  next
    case False
    have "(x + k + 2 ^ (intBits sz - 1)) mod 2 ^ intBits sz = x + k - 2 ^ (intBits sz - 1)"
      using False that(1-4) pw [of sz]
      by (intro int_mod_pos_eq [where q = 1]) auto
    then have "goInt sz (x + k) < 0"
      using that(2,4) pw [of sz] by (simp add: goInt_def)
    then show ?thesis using that(5) by simp
  qed
  show ?thesis
  proof (relation "measure (\<lambda>(sz, data, i).
           if 0 \<le> i \<and> i < int (length data)
           then (if i < 2 ^ (intBits sz - 1) then nat (int (length data) - i) + 1
                 else length data + 2)
           else 0)", goal_cases)
    case 1
    show ?case by simp
  next
    case (2 sz data i b)
    then have A: "0 \<le> i" "i < int (length data)"
      by (auto simp: index_def split: if_splits)
    show ?case
      using A R [of sz "i + 1"] K [of i sz 1] by auto
  next
    case (3 sz data i b marker i')
    then have A: "0 \<le> i" "i < int (length data)"
      by (auto simp: index_def split: if_splits)
    show ?case
      using A 3(6) R [of sz "i + 2"] K [of i sz 2] by auto
  next
    case (4 sz data i b marker i' sl segLen segEnd a)
    then have A: "0 \<le> i" "i < int (length data)" "0 \<le> i'"
      by (auto simp: index_def subslice_def split: if_splits bind_splits)
    have B: "0 \<le> uint sl" "uint sl < 65536" "2 \<le> uint sl"
      using uint_lt2p [of sl] 4 by auto
    show ?case
      using A B 4(6,11,13) R [of sz "i' + uint sl"] R [of sz "i + 2"] K [of i sz 2]
        K [of i' sz "uint sl"] by auto
  next
    case (5 sz data i b marker i' sl segLen segEnd)
    then have A: "0 \<le> i" "i < int (length data)" "0 \<le> i'"
      by (auto simp: index_def subslice_def split: if_splits bind_splits)
    have B: "0 \<le> uint sl" "uint sl < 65536" "2 \<le> uint sl"
      using uint_lt2p [of sl] 5 by auto
    show ?case
      using A B 5(6,11,13) R [of sz "i' + uint sl"] R [of sz "i + 2"] K [of i sz 2]
        K [of i' sz "uint sl"] by auto
  qed
qed

declare markerLoop.simps [simp del]

definition exifOrientationJPEG :: "IntSize \<Rightarrow> u8 list \<Rightarrow> (int \<times> bool) option" where
  "exifOrientationJPEG sz data =
     (if int (length data) < 4 then notFound
      else
        (case (index data 0, index data 1) of
           (Some d0, Some d1) \<Rightarrow>
             if d0 \<noteq> 0xFF \<or> d1 \<noteq> 0xD8 then notFound else markerLoop sz data 2
         | _ \<Rightarrow> None))"

section \<open>Results and payloads of the detector\<close>

text \<open>
  The results the detector may return: \<^verbatim>\<open>0, false\<close> or an orientation between 1 and 8
  together with \<^verbatim>\<open>true\<close>.
\<close>

definition good :: "(int \<times> bool) \<Rightarrow> bool" where
  "good r = (r = (0, False) \<or> (snd r \<and> 1 \<le> fst r \<and> fst r \<le> 8))"

text \<open>A JPEG payload whose APP1 segment holds a big-endian TIFF with orientation 6.\<close>

definition exifSample :: "u8 list" where
  "exifSample =
     [0xFF, 0xD8, 0xFF, 0xE1, 0x00, 0x22, 0x45, 0x78, 0x69, 0x66, 0x00, 0x00,
      0x4D, 0x4D, 0x00, 0x2A, 0x00, 0x00, 0x00, 0x08, 0x00, 0x01,
      0x01, 0x12, 0x00, 0x03, 0x00, 0x00, 0x00, 0x01, 0x00, 0x06, 0x00, 0x00,
      0x00, 0x00, 0x00, 0x00]"

text \<open>
  A JPEG payload of 20 bytes: the start-of-image marker, and an APP1 segment of
  length 16 with the Exif signature and the 8 bytes of a big-endian TIFF header
  (\<^verbatim>\<open>MM\<close>, the magic number 42) whose IFD offset is \<open>0x7FFFFFFF\<close>, far outside of the
  buffer.
\<close>

definition exifWrap :: "u8 list" where
  "exifWrap =
     [0xFF, 0xD8, 0xFF, 0xE1, 0x00, 0x10, 0x45, 0x78, 0x69, 0x66, 0x00, 0x00,
      0x4D, 0x4D, 0x00, 0x2A, 0x7F, 0xFF, 0xFF, 0xFF]"

section \<open>Bit extractor (phash.go)\<close>

text \<open>
  A coefficient matrix \<^verbatim>\<open>[8][8]float64\<close> is a function of the row and the column.
  The bit extractor only compares and sorts coefficients: a \<^verbatim>\<open>float64\<close> is modelled by
  the real number it denotes (the finite values are ordered as the reals are; NaN
  and the infinities are left out).
\<close>

type_synonym coeffs = "nat \<Rightarrow> nat \<Rightarrow> real"

text \<open>
  \<^verbatim>\<open>medianImageHash\<close>: the loops \<^verbatim>\<open>for y := 1; y < 8; y++ { for x := 1; x < 8; x++ {\<close>
  append \<^verbatim>\<open>c[y][x]\<close> to \<^verbatim>\<open>v\<close>; then \<^verbatim>\<open>sort.Float64s(v); return v[len(v)/2]\<close>.
\<close>

definition medianWindow :: "coeffs \<Rightarrow> real list" where
  "medianWindow c = concat (map (\<lambda>y. map (\<lambda>x. c y x) [1..<8]) [1..<8])"

definition medianImageHash :: "coeffs \<Rightarrow> real" where
  "medianImageHash c = (let v = sort (medianWindow c) in v ! (length v div 2))"

text \<open>
  \<^verbatim>\<open>hashFromCoeffsImageHash\<close>: for every row \<open>y\<close> and column \<open>x\<close> in turn,
  \<^verbatim>\<open>h <<= 1; if c[y][x] > med { h |= 1 }\<close>.
\<close>

definition hashStep :: "bool \<Rightarrow> u64 \<Rightarrow> u64" where
  "hashStep b h = (let h' = push_bit 1 h in if b then h' OR 1 else h')"

definition hashFromCoeffsImageHash :: "coeffs \<Rightarrow> real \<Rightarrow> u64" where
  "hashFromCoeffsImageHash c med =
     fold (\<lambda>y h. fold (\<lambda>x h. hashStep (c y x > med) h) [0..<8] h) [0..<8] 0"

section \<open>Images (the part of Go's image and image/color packages the code uses)\<close>

text \<open>\<^verbatim>\<open>image.Rectangle\<close>, with the two corner points flattened into four fields.\<close>

record Rectangle =
  MinX :: int
  MinY :: int
  MaxX :: int
  MaxY :: int

definition Dx :: "Rectangle \<Rightarrow> int" where
  "Dx r = MaxX r - MinX r"

definition Dy :: "Rectangle \<Rightarrow> int" where
  "Dy r = MaxY r - MinY r"

text \<open>\<^verbatim>\<open>image.Rect(x0, y0, x1, y1)\<close> swaps the coordinates that are out of order.\<close>

definition image_Rect :: "int \<Rightarrow> int \<Rightarrow> int \<Rightarrow> int \<Rightarrow> Rectangle" where
  "image_Rect x0 y0 x1 y1 =
     \<lparr>MinX = (if x0 > x1 then x1 else x0), MinY = (if y0 > y1 then y1 else y0),
      MaxX = (if x0 > x1 then x0 else x1), MaxY = (if y0 > y1 then y0 else y1)\<rparr>"

text \<open>\<^verbatim>\<open>Point{x, y}.In(r)\<close>\<close>

definition In :: "int \<Rightarrow> int \<Rightarrow> Rectangle \<Rightarrow> bool" where
  "In x y r = (MinX r \<le> x \<and> x < MaxX r \<and> MinY r \<le> y \<and> y < MaxY r)"

text \<open>
  A \<^verbatim>\<open>color.Color\<close>: \<^verbatim>\<open>color.RGBA\<close>, \<^verbatim>\<open>color.NRGBA\<close>, or any other colour, given by
  what its method \<^verbatim>\<open>RGBA()\<close> returns.
\<close>

datatype Color =
  RGBAColor u8 u8 u8 u8
| NRGBAColor u8 u8 u8 u8
| OtherColor u32 u32 u32 u32

type_synonym rgba = "u8 \<times> u8 \<times> u8 \<times> u8"

text \<open>
  The method \<^verbatim>\<open>RGBA()\<close>: for \<^verbatim>\<open>color.RGBA\<close>, \<^verbatim>\<open>r = uint32(c.R); r |= r << 8\<close>; for
  \<^verbatim>\<open>color.NRGBA\<close>, \<^verbatim>\<open>r = uint32(c.R); r |= r << 8; r *= uint32(c.A); r /= 0xff\<close> and
  \<^verbatim>\<open>a = uint32(c.A); a |= a << 8\<close>.
\<close>

definition spread :: "u8 \<Rightarrow> u32" where
  "spread v = (ucast v) OR push_bit 8 (ucast v)"

definition premul :: "u8 \<Rightarrow> u8 \<Rightarrow> u32" where
  "premul v a = (spread v * ucast a) div 0xff"

fun Color_RGBA :: "Color \<Rightarrow> u32 \<times> u32 \<times> u32 \<times> u32" where
  "Color_RGBA (RGBAColor r g b a) = (spread r, spread g, spread b, spread a)"
| "Color_RGBA (NRGBAColor r g b a) = (premul r a, premul g a, premul b a, spread a)"
| "Color_RGBA (OtherColor r g b a) = (r, g, b, a)"

text \<open>
  \<^verbatim>\<open>color.RGBAModel.Convert(c).(color.RGBA)\<close>: a \<^verbatim>\<open>color.RGBA\<close> is returned as it is,
  any other colour becomes \<^verbatim>\<open>RGBA{uint8(r >> 8), uint8(g >> 8), uint8(b >> 8), uint8(a >> 8)}\<close>.
\<close>

fun rgbaModel :: "Color \<Rightarrow> rgba" where
  "rgbaModel (RGBAColor r g b a) = (r, g, b, a)"
| "rgbaModel c =
     (case Color_RGBA c of
        (r, g, b, a) \<Rightarrow>
          (ucast (drop_bit 8 r), ucast (drop_bit 8 g), ucast (drop_bit 8 b), ucast (drop_bit 8 a)))"

text \<open>
  \<^verbatim>\<open>image.RGBA\<close> and \<^verbatim>\<open>image.NRGBA\<close> have the same layout: the pixel bytes, the stride
  between rows and the bounds.
\<close>

record PixImage =
  Pix :: "u8 list"
  Stride :: int
  Rect :: Rectangle

text \<open>
  An \<^verbatim>\<open>image.Image\<close>: an \<^verbatim>\<open>*image.RGBA\<close>, an \<^verbatim>\<open>*image.NRGBA\<close>, or any other
  implementation of the interface, given by its \<^verbatim>\<open>Bounds()\<close> and its \<^verbatim>\<open>At(x, y)\<close>.
\<close>

datatype Image =
  ImRGBA PixImage
| ImNRGBA PixImage
| ImOther Rectangle "int \<Rightarrow> int \<Rightarrow> Color"

fun Bounds :: "Image \<Rightarrow> Rectangle" where
  "Bounds (ImRGBA p) = Rect p"
| "Bounds (ImNRGBA p) = Rect p"
| "Bounds (ImOther r f) = r"

definition PixOffset :: "PixImage \<Rightarrow> int \<Rightarrow> int \<Rightarrow> int" where
  "PixOffset p x y = (y - MinY (Rect p)) * Stride p + (x - MinX (Rect p)) * 4"

text \<open>
  The four bytes \<^verbatim>\<open>Pix[i:i+4]\<close>. Go panics when they are not all inside \<^verbatim>\<open>Pix\<close>; the
  properties of the transforms are stated for well-formed images, where the bytes
  of every pixel of the bounds are inside.
\<close>

definition bytes4 :: "u8 list \<Rightarrow> int \<Rightarrow> rgba" where
  "bytes4 pix i = (pix ! nat i, pix ! nat (i + 1), pix ! nat (i + 2), pix ! nat (i + 3))"

definition put4 :: "PixImage \<Rightarrow> int \<Rightarrow> rgba \<Rightarrow> PixImage" where
  "put4 p i v =
     (case v of
        (r, g, b, a) \<Rightarrow>
          p\<lparr>Pix := (Pix p)[nat i := r, nat (i + 1) := g, nat (i + 2) := b, nat (i + 3) := a]\<rparr>)"

text \<open>\<^verbatim>\<open>(*image.RGBA).RGBAAt\<close>, \<^verbatim>\<open>(*image.NRGBA).NRGBAAt\<close> and \<^verbatim>\<open>At\<close>.\<close>

definition RGBAAt :: "PixImage \<Rightarrow> int \<Rightarrow> int \<Rightarrow> Color" where
  "RGBAAt p x y =
     (if \<not> In x y (Rect p) then RGBAColor 0 0 0 0
      else case bytes4 (Pix p) (PixOffset p x y) of (r, g, b, a) \<Rightarrow> RGBAColor r g b a)"

definition NRGBAAt :: "PixImage \<Rightarrow> int \<Rightarrow> int \<Rightarrow> Color" where
  "NRGBAAt p x y =
     (if \<not> In x y (Rect p) then NRGBAColor 0 0 0 0
      else case bytes4 (Pix p) (PixOffset p x y) of (r, g, b, a) \<Rightarrow> NRGBAColor r g b a)"

fun At :: "Image \<Rightarrow> int \<Rightarrow> int \<Rightarrow> Color" where
  "At (ImRGBA p) x y = RGBAAt p x y"
| "At (ImNRGBA p) x y = NRGBAAt p x y"
| "At (ImOther r f) x y = f x y"

text \<open>\<^verbatim>\<open>(*image.RGBA).Set(x, y, c)\<close>\<close>

definition Set_RGBA :: "PixImage \<Rightarrow> int \<Rightarrow> int \<Rightarrow> Color \<Rightarrow> PixImage" where
  "Set_RGBA p x y c =
     (if \<not> In x y (Rect p) then p else put4 p (PixOffset p x y) (rgbaModel c))"

text \<open>\<^verbatim>\<open>image.NewRGBA(r)\<close>: a zeroed buffer of \<open>4 * Dx * Dy\<close> bytes.\<close>

definition NewRGBA :: "Rectangle \<Rightarrow> PixImage" where
  "NewRGBA r = \<lparr>Pix = replicate (nat (4 * Dx r * Dy r)) 0, Stride = 4 * Dx r, Rect = r\<rparr>"

text \<open>
  The invariants of the images the \<^verbatim>\<open>image\<close> package builds: well-formed bounds, and
  for the two pixel-buffer types a stride of at least one row and a buffer that
  holds every pixel of the bounds.
\<close>

definition wfRect :: "Rectangle \<Rightarrow> bool" where
  "wfRect r = (MinX r \<le> MaxX r \<and> MinY r \<le> MaxY r)"

definition wfPix :: "PixImage \<Rightarrow> bool" where
  "wfPix p =
     (wfRect (Rect p) \<and> 4 * Dx (Rect p) \<le> Stride p \<and>
      (Dx (Rect p) = 0 \<or> Dy (Rect p) = 0 \<or>
       (Dy (Rect p) - 1) * Stride p + 4 * Dx (Rect p) \<le> int (length (Pix p))))"



section \<open>Orientation corrector (rotate.go)\<close>

text \<open>
  Every transform allocates \<^verbatim>\<open>dst\<close> with \<^verbatim>\<open>image.NewRGBA\<close> and fills it in two nested
  loops \<^verbatim>\<open>for y := 0; y < h; y++ { for x := 0; x < w; x++ {\<close>, which are folds over
  \<open>[0..h - 1]\<close> and \<open>[0..w - 1]\<close> that pass \<^verbatim>\<open>dst\<close> along. An \<^verbatim>\<open>*image.RGBA\<close> and an
  \<^verbatim>\<open>*image.NRGBA\<close> source take the fast paths, which copy or convert the bytes of
  \<^verbatim>\<open>Pix\<close>; any other image goes through \<^verbatim>\<open>dst.Set(.., img.At(..))\<close>.
\<close>

text \<open>\<^verbatim>\<open>copy(dst.Pix[do:do+4], src.Pix[so:so+4])\<close>\<close>

definition copyPixel :: "PixImage \<Rightarrow> int \<Rightarrow> PixImage \<Rightarrow> int \<Rightarrow> PixImage" where
  "copyPixel dst do src so = put4 dst do (bytes4 (Pix src) so)"

text \<open>
  \<^verbatim>\<open>c := color.NRGBA{R: src.Pix[so], ...}; r := color.RGBAModel.Convert(c).(color.RGBA)\<close>
  and the assignment of \<^verbatim>\<open>r.R, r.G, r.B, r.A\<close> to \<^verbatim>\<open>dst.Pix[do], ..., dst.Pix[do+3]\<close>.
\<close>

definition convertPixel :: "PixImage \<Rightarrow> int \<Rightarrow> PixImage \<Rightarrow> int \<Rightarrow> PixImage" where
  "convertPixel dst do src so =
     (case bytes4 (Pix src) so of
        (r, g, b, a) \<Rightarrow> put4 dst do (rgbaModel (NRGBAColor r g b a)))"

text \<open>\<^verbatim>\<open>flipHorizontalRGBA\<close>, \<^verbatim>\<open>flipHorizontalNRGBA\<close> and \<^verbatim>\<open>flipHorizontal\<close>.\<close>

definition flipHorizontalRGBA :: "PixImage \<Rightarrow> PixImage \<Rightarrow> Rectangle \<Rightarrow> PixImage" where
  "flipHorizontalRGBA dst src b =
     (let w = Dx b; h = Dy b in
      fold (\<lambda>y dst.
        let sy = MinY b + y; sOff = PixOffset src (MinX b) sy in
        fold (\<lambda>x dst.
          let so = sOff + (w - 1 - x) * 4; do = PixOffset dst x y in
          copyPixel dst do src so) [0..w - 1] dst) [0..h - 1] dst)"

definition flipHorizontalNRGBA :: "PixImage \<Rightarrow> PixImage \<Rightarrow> Rectangle \<Rightarrow> PixImage" where
  "flipHorizontalNRGBA dst src b =
     (let w = Dx b; h = Dy b in
      fold (\<lambda>y dst.
        let sy = MinY b + y; sOff = PixOffset src (MinX b) sy in
        fold (\<lambda>x dst.
          let so = sOff + (w - 1 - x) * 4; do = PixOffset dst x y in
          convertPixel dst do src so) [0..w - 1] dst) [0..h - 1] dst)"

definition flipHorizontal :: "Image \<Rightarrow> PixImage" where
  "flipHorizontal img =
     (let b = Bounds img; w = Dx b; h = Dy b; dst = NewRGBA (image_Rect 0 0 w h) in
      (case img of
         ImRGBA src \<Rightarrow> flipHorizontalRGBA dst src b
       | ImNRGBA src \<Rightarrow> flipHorizontalNRGBA dst src b
       | ImOther r f \<Rightarrow>
           fold (\<lambda>y dst.
             let sy = MinY b + y in
             fold (\<lambda>x dst.
               let sx = MinX b + (w - 1 - x) in
               Set_RGBA dst x y (At img sx sy)) [0..w - 1] dst) [0..h - 1] dst))"

text \<open>\<^verbatim>\<open>flipVerticalRGBA\<close>, \<^verbatim>\<open>flipVerticalNRGBA\<close> and \<^verbatim>\<open>flipVertical\<close>.\<close>

definition flipVerticalRGBA :: "PixImage \<Rightarrow> PixImage \<Rightarrow> Rectangle \<Rightarrow> PixImage" where
  "flipVerticalRGBA dst src b =
     (let w = Dx b; h = Dy b in
      fold (\<lambda>y dst.
        let sy = MinY b + (h - 1 - y); sOff = PixOffset src (MinX b) sy in
        fold (\<lambda>x dst.
          let so = sOff + x * 4; do = PixOffset dst x y in
          copyPixel dst do src so) [0..w - 1] dst) [0..h - 1] dst)"

definition flipVerticalNRGBA :: "PixImage \<Rightarrow> PixImage \<Rightarrow> Rectangle \<Rightarrow> PixImage" where
  "flipVerticalNRGBA dst src b =
     (let w = Dx b; h = Dy b in
      fold (\<lambda>y dst.
        let sy = MinY b + (h - 1 - y); sOff = PixOffset src (MinX b) sy in
        fold (\<lambda>x dst.
          let so = sOff + x * 4; do = PixOffset dst x y in
          convertPixel dst do src so) [0..w - 1] dst) [0..h - 1] dst)"

definition flipVertical :: "Image \<Rightarrow> PixImage" where
  "flipVertical img =
     (let b = Bounds img; w = Dx b; h = Dy b; dst = NewRGBA (image_Rect 0 0 w h) in
      (case img of
         ImRGBA src \<Rightarrow> flipVerticalRGBA dst src b
       | ImNRGBA src \<Rightarrow> flipVerticalNRGBA dst src b
       | ImOther r f \<Rightarrow>
           fold (\<lambda>y dst.
             let sy = MinY b + (h - 1 - y) in
             fold (\<lambda>x dst.
               let sx = MinX b + x in
               Set_RGBA dst x y (At img sx sy)) [0..w - 1] dst) [0..h - 1] dst))"

text \<open>\<^verbatim>\<open>rotate180RGBA\<close>, \<^verbatim>\<open>rotate180NRGBA\<close> and \<^verbatim>\<open>rotate180\<close>.\<close>

definition rotate180RGBA :: "PixImage \<Rightarrow> PixImage \<Rightarrow> Rectangle \<Rightarrow> PixImage" where
  "rotate180RGBA dst src b =
     (let w = Dx b; h = Dy b in
      fold (\<lambda>y dst.
        let sy = MinY b + (h - 1 - y); sOff = PixOffset src (MinX b) sy in
        fold (\<lambda>x dst.
          let so = sOff + (w - 1 - x) * 4; do = PixOffset dst x y in
          copyPixel dst do src so) [0..w - 1] dst) [0..h - 1] dst)"

definition rotate180NRGBA :: "PixImage \<Rightarrow> PixImage \<Rightarrow> Rectangle \<Rightarrow> PixImage" where
  "rotate180NRGBA dst src b =
     (let w = Dx b; h = Dy b in
      fold (\<lambda>y dst.
        let sy = MinY b + (h - 1 - y); sOff = PixOffset src (MinX b) sy in
        fold (\<lambda>x dst.
          let so = sOff + (w - 1 - x) * 4; do = PixOffset dst x y in
          convertPixel dst do src so) [0..w - 1] dst) [0..h - 1] dst)"

definition rotate180 :: "Image \<Rightarrow> PixImage" where
  "rotate180 img =
     (let b = Bounds img; w = Dx b; h = Dy b; dst = NewRGBA (image_Rect 0 0 w h) in
      (case img of
         ImRGBA src \<Rightarrow> rotate180RGBA dst src b
       | ImNRGBA src \<Rightarrow> rotate180NRGBA dst src b
       | ImOther r f \<Rightarrow>
           fold (\<lambda>y dst.
             let sy = MinY b + (h - 1 - y) in
             fold (\<lambda>x dst.
               let sx = MinX b + (w - 1 - x) in
               Set_RGBA dst x y (At img sx sy)) [0..w - 1] dst) [0..h - 1] dst))"

text \<open>\<^verbatim>\<open>rotate90RGBA\<close>, \<^verbatim>\<open>rotate90NRGBA\<close> and \<^verbatim>\<open>rotate90\<close>.\<close>

definition rotate90RGBA :: "PixImage \<Rightarrow> PixImage \<Rightarrow> Rectangle \<Rightarrow> PixImage" where
  "rotate90RGBA dst src b =
     (let w = Dx b; h = Dy b in
      fold (\<lambda>y dst.
        let sy = MinY b + y; sOff = PixOffset src (MinX b) sy in
        fold (\<lambda>x dst.
          let so = sOff + x * 4; do = PixOffset dst (h - 1 - y) x in
          copyPixel dst do src so) [0..w - 1] dst) [0..h - 1] dst)"

definition rotate90NRGBA :: "PixImage \<Rightarrow> PixImage \<Rightarrow> Rectangle \<Rightarrow> PixImage" where
  "rotate90NRGBA dst src b =
     (let w = Dx b; h = Dy b in
      fold (\<lambda>y dst.
        let sy = MinY b + y; sOff = PixOffset src (MinX b) sy in
        fold (\<lambda>x dst.
          let so = sOff + x * 4; do = PixOffset dst (h - 1 - y) x in
          convertPixel dst do src so) [0..w - 1] dst) [0..h - 1] dst)"

definition rotate90 :: "Image \<Rightarrow> PixImage" where
  "rotate90 img =
     (let b = Bounds img; w = Dx b; h = Dy b; dst = NewRGBA (image_Rect 0 0 h w) in
      (case img of
         ImRGBA src \<Rightarrow> rotate90RGBA dst src b
       | ImNRGBA src \<Rightarrow> rotate90NRGBA dst src b
       | ImOther r f \<Rightarrow>
           fold (\<lambda>y dst.
             let sy = MinY b + y in
             fold (\<lambda>x dst.
               let sx = MinX b + x in
               Set_RGBA dst (h - 1 - y) x (At img sx sy)) [0..w - 1] dst) [0..h - 1] dst))"

text \<open>\<^verbatim>\<open>rotate270RGBA\<close>, \<^verbatim>\<open>rotate270NRGBA\<close> and \<^verbatim>\<open>rotate270\<close>.\<close>

definition rotate270RGBA :: "PixImage \<Rightarrow> PixImage \<Rightarrow> Rectangle \<Rightarrow> PixImage" where
  "rotate270RGBA dst src b =
     (let w = Dx b; h = Dy b in
      fold (\<lambda>y dst.
        let sy = MinY b + y; sOff = PixOffset src (MinX b) sy in
        fold (\<lambda>x dst.
          let so = sOff + x * 4; do = PixOffset dst y (w - 1 - x) in
          copyPixel dst do src so) [0..w - 1] dst) [0..h - 1] dst)"

definition rotate270NRGBA :: "PixImage \<Rightarrow> PixImage \<Rightarrow> Rectangle \<Rightarrow> PixImage" where
  "rotate270NRGBA dst src b =
     (let w = Dx b; h = Dy b in
      fold (\<lambda>y dst.
        let sy = MinY b + y; sOff = PixOffset src (MinX b) sy in
        fold (\<lambda>x dst.
          let so = sOff + x * 4; do = PixOffset dst y (w - 1 - x) in
          convertPixel dst do src so) [0..w - 1] dst) [0..h - 1] dst)"

definition rotate270 :: "Image \<Rightarrow> PixImage" where
  "rotate270 img =
     (let b = Bounds img; w = Dx b; h = Dy b; dst = NewRGBA (image_Rect 0 0 h w) in
      (case img of
         ImRGBA src \<Rightarrow> rotate270RGBA dst src b
       | ImNRGBA src \<Rightarrow> rotate270NRGBA dst src b
       | ImOther r f \<Rightarrow>
           fold (\<lambda>y dst.
             let sy = MinY b + y in
             fold (\<lambda>x dst.
               let sx = MinX b + x in
               Set_RGBA dst y (w - 1 - x) (At img sx sy)) [0..w - 1] dst) [0..h - 1] dst))"

text \<open>\<^verbatim>\<open>transpose\<close> (orientation 5, here \<open>transposeImage\<close>) and \<^verbatim>\<open>transverse\<close>
  (orientation 7) have no fast path.\<close>

definition transposeImage :: "Image \<Rightarrow> PixImage" where
  "transposeImage img =
     (let b = Bounds img; w = Dx b; h = Dy b; dst = NewRGBA (image_Rect 0 0 h w) in
      fold (\<lambda>y dst.
             let sy = MinY b + y in
             fold (\<lambda>x dst.
               let sx = MinX b + x in
               Set_RGBA dst y x (At img sx sy)) [0..w - 1] dst) [0..h - 1] dst)"

definition transverse :: "Image \<Rightarrow> PixImage" where
  "transverse img =
     (let b = Bounds img; w = Dx b; h = Dy b; dst = NewRGBA (image_Rect 0 0 h w) in
      fold (\<lambda>y dst.
             let sy = MinY b + y in
             fold (\<lambda>x dst.
               let sx = MinX b + x in
               Set_RGBA dst (h - 1 - y) (w - 1 - x) (At img sx sy)) [0..w - 1] dst) [0..h - 1] dst)"

text \<open>
  The \<^verbatim>\<open>switch orientation\<close> of \<^verbatim>\<open>applyEXIFOrientation\<close>, and the function itself on
  the payload the image was decoded from.
\<close>

definition applyOrientation :: "int \<Rightarrow> Image \<Rightarrow> Image" where
  "applyOrientation orientation img =
     (if orientation = 2 then ImRGBA (flipHorizontal img)
      else if orientation = 3 then ImRGBA (rotate180 img)
      else if orientation = 4 then ImRGBA (flipVertical img)
      else if orientation = 5 then ImRGBA (transposeImage img)
      else if orientation = 6 then ImRGBA (rotate90 img)
      else if orientation = 7 then ImRGBA (transverse img)
      else if orientation = 8 then ImRGBA (rotate270 img)
      else img)"

definition applyEXIFOrientation :: "IntSize \<Rightarrow> Image \<Rightarrow> u8 list \<Rightarrow> Image option" where
  "applyEXIFOrientation sz img payload =
     (case exifOrientationJPEG sz payload of
        None \<Rightarrow> None
      | Some (orientation, ok) \<Rightarrow>
          if \<not> ok \<or> orientation = 1 then Some img
          else Some (applyOrientation orientation img))"

section \<open>Pixel sampler (Resize) and the hash pipeline\<close>

text \<open>
  \<^verbatim>\<open>uint32(float64(known) * float64(a) / float64(b))\<close>, the dimension that
  \<^verbatim>\<open>Resize\<close> derives from the aspect ratio of the source. The conversions to
  \<^verbatim>\<open>float64\<close> are exact, the product is exact below \<open>2 ^ 53\<close>, the quotient is
  rounded correctly, and the conversion to \<^verbatim>\<open>uint32\<close> drops the fraction; for a
  product below \<open>2 ^ 53\<close>, a positive divisor and a quotient below \<open>2 ^ 32\<close> the
  result is the integer part of the exact quotient, which the model computes.
  Outside of that range Go leaves the conversion to the implementation (a zero
  divisor gives an infinity or NaN, and a quotient of \<open>2 ^ 32\<close> or more does not
  fit): there the model reduces modulo \<open>2 ^ 32\<close>, which is one of the behaviours
  found, and nothing is claimed about it.
\<close>

definition aspectDim :: "u32 \<Rightarrow> int \<Rightarrow> int \<Rightarrow> u32" where
  "aspectDim known a b = of_int \<lfloor>real (unat known) * real_of_int a / real_of_int b\<rfloor>"

text \<open>
  \<^verbatim>\<open>Resize\<close>, in two parts. The first is the body up to the second
  \<^verbatim>\<open>if dstW == 0 || dstH == 0 { return src }\<close>: it yields \<open>None\<close> where the code
  returns \<^verbatim>\<open>src\<close> unchanged, and otherwise the two dimensions it goes on with.
\<close>

definition resizeTarget :: "Image \<Rightarrow> u32 \<Rightarrow> u32 \<Rightarrow> (u32 \<times> u32) option" where
  "resizeTarget img dstW dstH =
     (let sb = Bounds img; sw = Dx sb; sh = Dy sb;
          swu = (of_int sw :: u32); shu = (of_int sh :: u32) in
      if (dstW = 0 \<and> dstH = 0) \<or> (dstW = swu \<and> dstH = shu) then None
      else
        (let dstW1 = (if dstW = 0 then aspectDim dstH sw sh else dstW);
             dstH1 = (if dstH = 0 then aspectDim dstW1 sh sw else dstH) in
         if dstW1 = 0 \<or> dstH1 = 0 then None else Some (dstW1, dstH1)))"

text \<open>
  A nil image is \<open>None\<close>. What follows the computation of the target (the single
  \<^verbatim>\<open>draw.ApproxBiLinear\<close> pass when upscaling, the halving loop and the final
  \<^verbatim>\<open>draw.CatmullRom\<close> pass otherwise) belongs to \<^verbatim>\<open>golang.org/x/image/draw\<close> and is
  the parameter \<open>resample\<close>, called with the source and the two target dimensions.
\<close>

definition Resize :: "(Image \<Rightarrow> u32 \<Rightarrow> u32 \<Rightarrow> Image) \<Rightarrow> Image option \<Rightarrow> u32 \<Rightarrow> u32 \<Rightarrow> Image option" where
  "Resize resample src dstW dstH =
     (case src of
        None \<Rightarrow> None
      | Some img \<Rightarrow>
          (case resizeTarget img dstW dstH of
             None \<Rightarrow> Some img
           | Some (w, h) \<Rightarrow> Some (resample img w h)))"

text \<open>
  The rule of the specification for the missing dimension, rounding to the nearest
  integer: \<open>round (known_target * source_other / source_known)\<close>.
\<close>

definition aspectDim_rounded :: "u32 \<Rightarrow> int \<Rightarrow> int \<Rightarrow> u32" where
  "aspectDim_rounded known a b = of_int (round (real (unat known) * real_of_int a / real_of_int b))"

text \<open>
  \<^verbatim>\<open>Grayscale\<close>: nil for a nil image; otherwise the \<^verbatim>\<open>*image.Gray\<close> that
  \<^verbatim>\<open>image.NewGray\<close> and \<^verbatim>\<open>draw.Draw\<close> produce from the source, the parameter \<open>toGray\<close>.
\<close>

definition Grayscale :: "(Image \<Rightarrow> Image) \<Rightarrow> Image option \<Rightarrow> Image option" where
  "Grayscale toGray src = (case src of None \<Rightarrow> None | Some img \<Rightarrow> Some (toGray img))"

text \<open>
  \<^verbatim>\<open>gray32x32\<close>: \<^verbatim>\<open>out[y][x] = float64(r >> 8)\<close> for the red channel \<open>r\<close> of
  \<^verbatim>\<open>img.At(b.Min.X+x, b.Min.Y+y).RGBA()\<close>.
\<close>

definition gray32x32 :: "Image \<Rightarrow> nat \<Rightarrow> nat \<Rightarrow> real" where
  "gray32x32 img =
     (\<lambda>y x. case Color_RGBA (At img (MinX (Bounds img) + int x) (MinY (Bounds img) + int y)) of
              (r, g, b, a) \<Rightarrow> real (unat (drop_bit 8 r)))"

text \<open>
  \<^verbatim>\<open>PHash\<close>. The cosine sums of \<^verbatim>\<open>dctTopLeft8x8\<close> are \<^verbatim>\<open>float64\<close> arithmetic and are
  the parameter \<open>dct\<close>. The result \<open>None\<close> stands for the nil dereference that
  \<^verbatim>\<open>gray32x32\<close> would run into on a nil image; \<^verbatim>\<open>Resize\<close> never returns one for a
  non-nil source.
\<close>

definition PHash ::
  "(Image \<Rightarrow> Image) \<Rightarrow> (Image \<Rightarrow> u32 \<Rightarrow> u32 \<Rightarrow> Image) \<Rightarrow> ((nat \<Rightarrow> nat \<Rightarrow> real) \<Rightarrow> coeffs) \<Rightarrow>
     Image option \<Rightarrow> u64 option" where
  "PHash toGray resample dct src =
     (case src of
        None \<Rightarrow> Some 0
      | Some img \<Rightarrow>
          (let gray = Grayscale toGray (Some img);
               resized = Resize resample gray 32 32 in
           case resized of
             None \<Rightarrow> None
           | Some r \<Rightarrow>
               (let pix = gray32x32 r;
                    coeff = dct pix;
                    med = medianImageHash coeff in
                Some (hashFromCoeffsImageHash coeff med))))"

section \<open>The Grayscale Reducer of the libraries, and the documented order of the stages\<close>

text \<open>
  What \<^verbatim>\<open>Grayscale\<close> gets from \<^verbatim>\<open>image.NewGray\<close> and \<^verbatim>\<open>draw.Draw\<close> (with
  \<^verbatim>\<open>draw.Src\<close>): the pixel \<open>(x, y)\<close> of the \<^verbatim>\<open>*image.Gray\<close>, whose bounds start at the
  origin, is the luminance of the source pixel at \<^verbatim>\<open>b.Min\<close> plus \<open>(x, y)\<close>. The
  luminance is that of \<^verbatim>\<open>color.GrayModel\<close> and of \<^verbatim>\<open>(*image.Gray).SetRGBA64\<close>,
  \<^verbatim>\<open>(19595*r + 38470*g + 7471*b + 1<<15) >> 24\<close> on the channels that \<^verbatim>\<open>RGBA()\<close>
  returns, in \<^verbatim>\<open>uint32\<close>. A \<^verbatim>\<open>color.Gray{Y}\<close> returns \<^verbatim>\<open>y |= y << 8\<close> for the three
  channels and \<open>0xffff\<close> for alpha from \<^verbatim>\<open>RGBA()\<close>; outside of its bounds an
  \<^verbatim>\<open>*image.Gray\<close> returns \<^verbatim>\<open>color.Gray{}\<close>.
\<close>

definition grayY :: "Color \<Rightarrow> u8" where
  "grayY c =
     (case Color_RGBA c of
        (r, g, b, a) \<Rightarrow> ucast (drop_bit 24 (19595 * r + 38470 * g + 7471 * b + push_bit 15 1)))"

definition GrayColor :: "u8 \<Rightarrow> Color" where
  "GrayColor y = OtherColor (spread y) (spread y) (spread y) 0xffff"

definition drawGray :: "Image \<Rightarrow> Image" where
  "drawGray src =
     (let b = Bounds src; r = image_Rect 0 0 (Dx b) (Dy b) in
      ImOther r (\<lambda>x y. if In x y r then GrayColor (grayY (At src (MinX b + x) (MinY b + y)))
                       else GrayColor 0))"

text \<open>
  The pipeline in the order that the specification, the comment of \<^verbatim>\<open>PHash\<close>
  ("1. Resize to 32x32, 2. Grayscale") and the README give: \<^verbatim>\<open>Resize\<close> runs on the
  decoded image and \<^verbatim>\<open>Grayscale\<close> on its result. Everything else is as in \<open>PHash\<close>.
\<close>

definition PHash_resizeFirst ::
  "(Image \<Rightarrow> Image) \<Rightarrow> (Image \<Rightarrow> u32 \<Rightarrow> u32 \<Rightarrow> Image) \<Rightarrow> ((nat \<Rightarrow> nat \<Rightarrow> real) \<Rightarrow> coeffs) \<Rightarrow>
     Image option \<Rightarrow> u64 option" where
  "PHash_resizeFirst toGray resample dct src =
     (case src of
        None \<Rightarrow> Some 0
      | Some img \<Rightarrow>
          (let resized = Resize resample (Some img) 32 32;
               gray = Grayscale toGray resized in
           case gray of
             None \<Rightarrow> None
           | Some g \<Rightarrow>
               (let pix = gray32x32 g;
                    coeff = dct pix;
                    med = medianImageHash coeff in
                Some (hashFromCoeffsImageHash coeff med))))"

text \<open>A luminance grid whose 32 by 32 samples all have the value \<open>v\<close>.\<close>

definition constGrid :: "real \<Rightarrow> (nat \<Rightarrow> nat \<Rightarrow> real) \<Rightarrow> bool" where
  "constGrid v pix = (\<forall>y<32. \<forall>x<32. pix y x = v)"

text \<open>
  What the resampling of \<^verbatim>\<open>golang.org/x/image/draw\<close> does to a uniform image, for the
  one case used below: a source of 64 by 64 pixels, all of the same opaque colour,
  resized to 32 by 32. \<^verbatim>\<open>Resize\<close> halves it with \<^verbatim>\<open>draw.CatmullRom.Scale\<close> and passes it
  through \<^verbatim>\<open>draw.CatmullRom.Scale\<close> once more, each time into a new \<^verbatim>\<open>*image.RGBA\<close>. A
  kernel scaler weighs the 16-bit channels of the source pixels with weights that
  it divides by their sum, rounds the result to 16 bits (\<^verbatim>\<open>ftou\<close>) and stores the
  upper 8 bits (\<^verbatim>\<open>uint8(ftou(...) >> 8)\<close>); of equal pixels with the channel \<open>r\<close> this
  is the channel \<^verbatim>\<open>r >> 8\<close>, which the second pass (reading it as \<^verbatim>\<open>(r >> 8) * 0x101\<close>)
  leaves as it is.
\<close>

definition keepsUniform :: "(Image \<Rightarrow> u32 \<Rightarrow> u32 \<Rightarrow> Image) \<Rightarrow> bool" where
  "keepsUniform resample =
     (\<forall>img r g b.
        Bounds img = image_Rect 0 0 64 64 \<and> r \<le> 0xffff \<and> g \<le> 0xffff \<and> b \<le> 0xffff \<and>
        (\<forall>x y. In x y (Bounds img) \<longrightarrow> Color_RGBA (At img x y) = (r, g, b, 0xffff)) \<longrightarrow>
        Bounds (resample img 32 32) = image_Rect 0 0 32 32 \<and>
        (\<forall>x y. In x y (image_Rect 0 0 32 32) \<longrightarrow>
           At (resample img 32 32) x y =
             RGBAColor (ucast (drop_bit 8 r)) (ucast (drop_bit 8 g)) (ucast (drop_bit 8 b)) 0xff))"

text \<open>Coefficient matrices used as concrete inputs.\<close>

definition dcOnly :: coeffs where
  "dcOnly = (\<lambda>y x. if y = 0 \<and> x = 0 then 1 else 0)"

definition ramp :: coeffs where
  "ramp = (\<lambda>y x. real (8 * y + x))"

text \<open>
  The other reading of "the 63 coefficients": all of them but the one at
  \<open>(0, 0)\<close>, sorted, the element at index 31.
\<close>

definition allButDC :: "coeffs \<Rightarrow> real list" where
  "allButDC c = tl (concat (map (\<lambda>y. map (\<lambda>x. c y x) [0..<8]) [0..<8]))"

text \<open>The 64 positions in the order in which \<^verbatim>\<open>hashFromCoeffsImageHash\<close> visits them.\<close>

definition positions :: "(nat \<times> nat) list" where
  "positions = concat (map (\<lambda>y. map (\<lambda>x. (y, x)) [0..<8]) [0..<8])"

text \<open>
  Sources of 4 by 3, of 2 by 3 and of 1 by 1000000 opaque black pixels, of no
  particular pixel type.
\<close>

definition img43 :: Image where
  "img43 = ImOther (image_Rect 0 0 4 3) (\<lambda>x y. OtherColor 0 0 0 0xffff)"

definition img23 :: Image where
  "img23 = ImOther (image_Rect 0 0 2 3) (\<lambda>x y. OtherColor 0 0 0 0xffff)"

definition img1M :: Image where
  "img1M = ImOther (image_Rect 0 0 1 1000000) (\<lambda>x y. OtherColor 0 0 0 0xffff)"

text \<open>
  An \<^verbatim>\<open>*image.RGBA64\<close> of 64 by 64 pixels, all of the opaque colour with the 16-bit
  channels \<open>0x01ff, 0x00ff, 0x00ff\<close> (what a 16-bit PNG decodes to).
\<close>

definition rgba64Sample :: Image where
  "rgba64Sample = ImOther (image_Rect 0 0 64 64) (\<lambda>x y. OtherColor 0x01ff 0x00ff 0x00ff 0xffff)"

text \<open>
  Two stand-ins for the stages of the libraries, to have an instance of what is
  assumed of them: a resampling that gives every pixel of the result the upper 8
  bits of the channels of the top-left pixel of the source, and a transform that
  keeps the coefficient at \<open>(0, 0)\<close> of \<^verbatim>\<open>dctTopLeft8x8\<close>, the sum of the samples
  divided by 32, and sets the others to 0.
\<close>

definition cornerScale :: "Image \<Rightarrow> u32 \<Rightarrow> u32 \<Rightarrow> Image" where
  "cornerScale img w h =
     ImOther (image_Rect 0 0 (uint w) (uint h))
       (\<lambda>x y. case Color_RGBA (At img (MinX (Bounds img)) (MinY (Bounds img))) of
                (r, g, b, a) \<Rightarrow>
                  RGBAColor (ucast (drop_bit 8 r)) (ucast (drop_bit 8 g)) (ucast (drop_bit 8 b))
                    (ucast (drop_bit 8 a)))"

definition dcTerm :: "(nat \<Rightarrow> nat \<Rightarrow> real) \<Rightarrow> coeffs" where
  "dcTerm pix =
     (\<lambda>v u. if v = 0 \<and> u = 0 then (\<Sum>y<32. \<Sum>x<32. pix y x) / 32 else 0)"




section \<open>Notions for the properties of the orientation corrector\<close>






section \<open>Properties of the orientation detector\<close>

text \<open>
  Where the exact result lies in the range of a 64-bit \<^verbatim>\<open>int\<close>, nothing wraps
  around.
\<close>

lemma goInt64_id:
  "- 9223372036854775808 \<le> x \<Longrightarrow> x < 9223372036854775808 \<Longrightarrow> goInt Int64 x = x"
proof -
  assume a: "- 9223372036854775808 \<le> x" "x < 9223372036854775808"
  have "(x + 9223372036854775808) mod 18446744073709551616 = x + 9223372036854775808"
    using a by (intro mod_pos_pos_trivial) auto
  then show ?thesis
    by (simp add: goInt_def intBits_def)
qed

lemma goInt64_nonneg:
  "0 \<le> x \<Longrightarrow> x < 9223372036854775808 \<Longrightarrow> goInt Int64 x = x"
  by (rule goInt64_id) simp_all

text \<open>Reads that the guards of the code have checked never panic.\<close>

lemma subslice_in_range:
  "0 \<le> lo \<Longrightarrow> lo \<le> hi \<Longrightarrow> hi \<le> int (length s) \<Longrightarrow>
     \<exists>t. subslice s lo hi = Some t \<and> int (length t) = hi - lo"
  by (auto simp: subslice_def)

lemma Uint16_total: "2 \<le> length b \<Longrightarrow> \<exists>v. Uint16 order b = Some v"
  by (auto simp: Uint16_def index_def split: option.splits)

lemma Uint32_total: "4 \<le> length b \<Longrightarrow> \<exists>v. Uint32 order b = Some v"
  by (auto simp: Uint32_def index_def split: option.splits)

lemma read16_total:
  assumes "0 \<le> a" "a + 2 \<le> int (length s)"
  shows "\<exists>v. Option.bind (subslice s a (a + 2)) (Uint16 order) = Some v"
proof -
  obtain t where t: "subslice s a (a + 2) = Some t" "int (length t) = 2"
    using subslice_in_range [of a "a + 2" s] assms by auto
  then have "2 \<le> length t" by simp
  with Uint16_total [of t order] t show ?thesis by auto
qed

lemma read16_total':
  assumes "0 \<le> a" "b = a + 2" "b \<le> int (length s)"
  shows "\<exists>v. Option.bind (subslice s a b) (Uint16 order) = Some v"
  using read16_total assms by simp

lemma read32_total:
  assumes "0 \<le> a" "b = a + 4" "b \<le> int (length s)"
  shows "\<exists>v. Option.bind (subslice s a b) (Uint32 order) = Some v"
proof -
  obtain t where t: "subslice s a b = Some t" "int (length t) = 4"
    using subslice_in_range [of a b s] assms by auto
  then have "4 \<le> length t" by simp
  with Uint32_total [of t order] t show ?thesis by auto
qed

lemma ifdEntry_total:
  assumes "0 \<le> e" "e + 12 \<le> int (length tiff)" "e < 2 ^ 62"
  shows "\<exists>r. ifdEntry Int64 order tiff e = Some r \<and> (case r of None \<Rightarrow> True | Some x \<Rightarrow> good x)"
proof -
  have g: "goInt Int64 (e + 2) = e + 2" "goInt Int64 (e + 4) = e + 4"
    "goInt Int64 (e + 8) = e + 8" "goInt Int64 (e + 10) = e + 10"
    using assms(1,3) by (simp_all add: goInt64_id)
  obtain tag where tag: "Option.bind (subslice tiff e (e + 2)) (Uint16 order) = Some tag"
    using read16_total' [of e "e + 2" tiff order] assms by auto
  obtain ty where ty: "Option.bind (subslice tiff (e + 2) (e + 4)) (Uint16 order) = Some ty"
    using read16_total' [of "e + 2" "e + 4" tiff order] assms by auto
  obtain cnt where cnt: "Option.bind (subslice tiff (e + 4) (e + 8)) (Uint32 order) = Some cnt"
    using read32_total [of "e + 4" "e + 8" tiff order] assms by auto
  obtain v where v: "Option.bind (subslice tiff (e + 8) (e + 10)) (Uint16 order) = Some v"
    using read16_total' [of "e + 8" "e + 10" tiff order] assms by auto
  have "1 \<le> v \<Longrightarrow> v \<le> 8 \<Longrightarrow> 1 \<le> uint v \<and> uint v \<le> 8"
    by (simp add: word_le_def)
  then show ?thesis
    unfolding ifdEntry_def g tag ty cnt v by (auto simp: good_def)
qed

lemma ifdEntries_total:
  "0 \<le> base \<Longrightarrow> base < 2 ^ 40 \<Longrightarrow> 0 \<le> n \<Longrightarrow> cnt \<le> 2 ^ 20 \<Longrightarrow>
     \<exists>r. ifdEntries Int64 order tiff base cnt n = Some r \<and> good r"
proof (induction sz \<equiv> Int64 order tiff base cnt n rule: ifdEntries.induct)
  case (1 order tiff base cnt n)
  note unf = ifdEntries.simps [of Int64 order tiff base cnt n]
  show ?case
  proof (cases "n < cnt")
    case False
    then show ?thesis by (simp add: unf good_def)
  next
    case nc: True
    have g: "goInt Int64 (n * 12) = n * 12" "goInt Int64 (base + n * 12) = base + n * 12"
      "goInt Int64 (base + n * 12 + 12) = base + n * 12 + 12"
      using nc 1(2-5) by (simp_all add: goInt64_id)
    show ?thesis
    proof (cases "base + n * 12 + 12 > int (length tiff)")
      case True
      then show ?thesis using nc by (simp add: unf g good_def Let_def)
    next
      case inr: False
      have e: "0 \<le> base + n * 12" "base + n * 12 + 12 \<le> int (length tiff)" "base + n * 12 < 2 ^ 62"
        using inr nc 1(2-5) by auto
      obtain r where r: "ifdEntry Int64 order tiff (base + n * 12) = Some r"
        "case r of None \<Rightarrow> True | Some x \<Rightarrow> good x"
        using ifdEntry_total [OF e] by blast
      show ?thesis
      proof (cases r)
        case None
        have "\<exists>r. ifdEntries Int64 order tiff base cnt (n + 1) = Some r \<and> good r"
          using 1(1) [of "base + n * 12"] nc inr r None 1(2-5) g by auto
        then show ?thesis
          using nc inr r None by (simp add: unf g Let_def)
      next
        case (Some x)
        then show ?thesis
          using nc inr r by (simp add: unf g Let_def)
      qed
    qed
  qed
qed

lemma parseTIFF_total:
  assumes "8 \<le> int (length tiff)"
  shows "\<exists>r. parseTIFF Int64 order tiff = Some r \<and> good r"
proof -
  obtain magic where m: "Option.bind (subslice tiff 2 4) (Uint16 order) = Some magic"
    using read16_total' [of 2 4 tiff order] assms by auto
  obtain off where off: "Option.bind (subslice tiff 4 8) (Uint32 order) = Some off"
    using read32_total [of 4 8 tiff order] assms by auto
  have u: "0 \<le> uint off" "uint off < 2 ^ 32"
    using uint_lt2p [of off] by simp_all
  have g: "goInt Int64 (uint off) = uint off" "goInt Int64 (uint off + 2) = uint off + 2"
    using u by (simp_all add: goInt64_nonneg)
  show ?thesis
  proof (cases "magic \<noteq> 0x002A \<or> uint off + 2 > int (length tiff)")
    case True
    then show ?thesis
      using m off by (auto simp: parseTIFF_def g good_def Let_def)
  next
    case ok: False
    obtain ec where ec: "Option.bind (subslice tiff (uint off) (uint off + 2)) (Uint16 order) = Some ec"
      using read16_total' [of "uint off" "uint off + 2" tiff order] ok by auto
    have "uint ec < 2 ^ 16" using uint_lt2p [of ec] by simp
    then have "\<exists>r. ifdEntries Int64 order tiff (uint off + 2) (uint ec) 0 = Some r \<and> good r"
      using u by (intro ifdEntries_total) auto
    then show ?thesis
      using m off ok ec by (auto simp: parseTIFF_def g good_def Let_def)
  qed
qed

lemma parseExifOrientation_total: "\<exists>r. parseExifOrientation Int64 tiff = Some r \<and> good r"
proof (cases "int (length tiff) < 8")
  case True
  then show ?thesis by (simp add: parseExifOrientation_def good_def)
next
  case False
  then have len: "8 \<le> int (length tiff)" by simp
  have "tiff \<noteq> []" "1 < length tiff" using len by auto
  then obtain t0 t1 where t: "index tiff 0 = Some t0" "index tiff 1 = Some t1"
    by (simp add: index_def)
  show ?thesis
    using False t parseTIFF_total [OF len]
    by (auto simp: parseExifOrientation_def good_def)
qed

lemma app1Segment_total:
  assumes "0 \<le> i" "i + 2 \<le> segEnd" "segEnd \<le> int (length data)" "i < 2 ^ 62"
  shows "\<exists>r. app1Segment Int64 data i segEnd = Some r \<and> (case r of None \<Rightarrow> True | Some x \<Rightarrow> good x)"
proof -
  have g: "goInt Int64 (i + 2) = i + 2"
    using assms(1,4) by (simp add: goInt64_id)
  obtain segment where seg: "subslice data (i + 2) segEnd = Some segment"
    using subslice_in_range [of "i + 2" segEnd data] assms by auto
  show ?thesis
  proof (cases "int (length segment) \<ge> 6 \<and> HasPrefix segment exifHeader")
    case False
    then show ?thesis using seg by (auto simp: app1Segment_def g)
  next
    case True
    then obtain tiff where tiff: "subslice segment 6 (int (length segment)) = Some tiff"
      using subslice_in_range [of 6 "int (length segment)" segment] by auto
    obtain r where r: "parseExifOrientation Int64 tiff = Some r" "good r"
      using parseExifOrientation_total by blast
    show ?thesis
      using True seg tiff r by (cases r) (auto simp: app1Segment_def g good_def)
  qed
qed

lemma markerLoop_total:
  "0 \<le> i \<Longrightarrow> i \<le> int (length data) \<Longrightarrow> length data < 2 ^ 62 \<Longrightarrow>
     \<exists>r. markerLoop Int64 data i = Some r \<and> good r"
proof (induction sz \<equiv> Int64 data i rule: markerLoop.induct)
  case (1 data i)
  note unf = markerLoop.simps [of Int64 data i]
  note pos = \<open>0 \<le> i\<close> and le = \<open>i \<le> int (length data)\<close> and bound = \<open>length data < 2 ^ 62\<close>
  have g: "goInt Int64 (i + 4) = i + 4" "goInt Int64 (i + 1) = i + 1"
    "goInt Int64 (i + 2) = i + 2" "goInt Int64 (i + 2 + 2) = i + 2 + 2"
    "goInt Int64 (4 + i) = 4 + i"
    using pos le bound by (simp_all add: goInt64_nonneg)
  show ?case
  proof (cases "i + 4 \<le> int (length data)")
    case False
    then show ?thesis by (simp add: unf g good_def)
  next
    case inr: True
    obtain b where b: "index data i = Some b"
      using inr pos by (auto simp: index_def)
    obtain marker where mk: "index data (i + 1) = Some marker"
      using inr pos by (auto simp: index_def)
    obtain sl where sl: "Option.bind (subslice data (i + 2) (i + 2 + 2)) (Uint16 BigEndian) = Some sl"
      using read16_total' [of "i + 2" "i + 2 + 2" data BigEndian] inr pos by auto
    have gs: "goInt Int64 (i + 2 + uint sl) = i + 2 + uint sl"
      using pos le bound uint_lt2p [of sl] by (simp add: goInt64_nonneg)
    show ?thesis
    proof (cases "b \<noteq> 0xFF")
      case True
      then have "\<exists>r. markerLoop Int64 data (i + 1) = Some r \<and> good r"
        using 1(1) [OF _ b True] inr pos bound g by simp
      then show ?thesis
        using inr b True by (simp add: unf g)
    next
      case bff: False
      have nl: "\<not> i + 1 \<ge> int (length data)" using inr by simp
      show ?thesis
      proof (cases "marker = 0xD9 \<or> marker = 0xDA")
        case True
        then show ?thesis
          using inr b bff mk nl by (auto simp: unf g good_def Let_def)
      next
        case nstop: False
        show ?thesis
        proof (cases "marker = 0x01 \<or> (marker \<ge> 0xD0 \<and> marker \<le> 0xD7)")
          case True
          have "\<exists>r. markerLoop Int64 data (i + 2) = Some r \<and> good r"
            using 1(2) [OF _ b bff _ _ refl nstop True] inr mk nl pos bound g by simp
          then show ?thesis
            using inr b bff mk nl nstop True
            by (simp add: unf g Let_def)
        next
          case nalone: False
          have n2: "\<not> i + 2 + 2 > int (length data)" using inr by simp
          show ?thesis
          proof (cases "uint sl < 2 \<or> i + 2 + uint sl > int (length data)")
            case True
            then show ?thesis
              using inr b bff mk nl nstop nalone n2 sl
              by (auto simp: unf g gs good_def Let_def)
          next
            case segok: False
            then have s2: "\<not> uint sl < 2" and s3: "\<not> i + 2 + uint sl > int (length data)"
              by auto
            have rec: "\<exists>r. markerLoop Int64 data (i + 2 + uint sl) = Some r \<and> good r" if
              "marker = 0xE1 \<and> uint sl \<ge> 8 \<Longrightarrow> app1Segment Int64 data (i + 2) (i + 2 + uint sl) = Some None"
            proof (cases "marker = 0xE1 \<and> uint sl \<ge> 8")
              case True
              show ?thesis
                using 1(3) [OF _ b bff _ _ refl nstop nalone _ _ refl s2 refl _ True]
                  that [OF True] inr mk nl n2 sl s3 pos bound s2 g gs by simp
            next
              case False
              show ?thesis
                using 1(4) [OF _ b bff _ _ refl nstop nalone _ _ refl s2 refl _ False]
                  inr mk nl n2 sl s3 pos bound s2 g gs by simp
            qed
            show ?thesis
            proof (cases "marker = 0xE1 \<and> uint sl \<ge> 8")
              case False
              have "\<exists>r. markerLoop Int64 data (i + 2 + uint sl) = Some r \<and> good r"
                by (rule rec) (use False in blast)
              then show ?thesis
                using False inr b bff mk nl nstop nalone n2 sl s2 s3
                by (auto simp: unf g gs Let_def)
            next
              case True
              obtain a where a: "app1Segment Int64 data (i + 2) (i + 2 + uint sl) = Some a"
                "case a of None \<Rightarrow> True | Some x \<Rightarrow> good x"
                using app1Segment_total [of "i + 2" "i + 2 + uint sl" data] pos le bound s2 s3 by auto
              show ?thesis
              proof (cases a)
                case None
                have "\<exists>r. markerLoop Int64 data (i + 2 + uint sl) = Some r \<and> good r"
                  by (rule rec) (use a None in simp)
                then show ?thesis
                  using None a True inr b bff mk nl nstop nalone n2 sl s2 s3
                  by (simp add: unf g gs Let_def)
              next
                case (Some x)
                then show ?thesis
                  using a True inr b bff mk nl nstop nalone n2 sl s2 s3
                  by (simp add: unf g gs Let_def)
              qed
            qed
          qed
        qed
      qed
    qed
  qed
qed


text \<open>
  With a 64-bit \<^verbatim>\<open>int\<close> the detector returns on every payload (shorter than
  \<open>2 ^ 62\<close> bytes, so that no position wraps around): no index and no slice
  expression is out of range, the loops end, and the result is "not found" or an
  orientation between 1 and 8. So does \<^verbatim>\<open>parseExifOrientation\<close> on every TIFF
  payload (lemma \<open>parseExifOrientation_total\<close>).
\<close>

lemma exifOrientationJPEG_Int64_total:
  assumes "length data < 2 ^ 62"
  shows "\<exists>r. exifOrientationJPEG Int64 data = Some r \<and> good r"
proof (cases "int (length data) < 4")
  case True
  then show ?thesis by (simp add: exifOrientationJPEG_def good_def)
next
  case False
  then have "data \<noteq> []" "1 < length data" by auto
  then obtain d0 d1 where d: "index data 0 = Some d0" "index data 1 = Some d1"
    by (simp add: index_def)
  obtain r where "markerLoop Int64 data 2 = Some r" "good r"
    using markerLoop_total [of 2 data] False assms by auto
  then show ?thesis
    using False d by (cases r) (auto simp: exifOrientationJPEG_def good_def)
qed

text \<open>On the sample payload the detector finds the orientation 6, for both widths.\<close>

lemma exifOrientationJPEG_exifSample:
  "exifOrientationJPEG Int32 exifSample = Some (6, True) \<and>
   exifOrientationJPEG Int64 exifSample = Some (6, True)"
  by code_simp

text \<open>
  With a 32-bit \<^verbatim>\<open>int\<close>, a TIFF header with the magic number 42 and the IFD offset
  \<open>0x7FFFFFFE\<close> or \<open>0x7FFFFFFF\<close> makes \<^verbatim>\<open>parseExifOrientation\<close> panic, whatever
  follows the header: \<^verbatim>\<open>ifdOffset\<close> is not negative, \<^verbatim>\<open>ifdOffset+2\<close> wraps around to
  a negative number, which is not larger than \<^verbatim>\<open>len(tiff)\<close>, and
  \<^verbatim>\<open>tiff[ifdOffset : ifdOffset+2]\<close> has its upper bound below its lower bound.
\<close>

lemma parseTIFF_Int32_wraps:
  assumes "Option.bind (subslice tiff 2 4) (Uint16 order) = Some 0x002A"
    and "Option.bind (subslice tiff 4 8) (Uint32 order) = Some off"
    and "off = 0x7FFFFFFE \<or> off = 0x7FFFFFFF"
  shows "parseTIFF Int32 order tiff = None"
proof -
  have g: "goInt Int32 2147483646 = 2147483646" "goInt Int32 2147483647 = 2147483647"
    "goInt Int32 2147483648 = - 2147483648" "goInt Int32 2147483649 = - 2147483647"
    by (simp_all add: goInt_def intBits_def)
  show ?thesis
    using assms(3)
  proof
    assume "off = 0x7FFFFFFE"
    then show ?thesis
      using assms(1,2) by (simp add: parseTIFF_def g subslice_def)
  next
    assume "off = 0x7FFFFFFF"
    then show ?thesis
      using assms(1,2) by (simp add: parseTIFF_def g subslice_def)
  qed
qed

text \<open>
  Claim C4 does not hold where \<^verbatim>\<open>int\<close> is 32 bits wide: the detector panics on the
  payload \<open>exifWrap\<close> of 20 bytes. Its APP1 segment carries a TIFF header with the IFD
  offset \<open>0x7FFFFFFF\<close>; \<^verbatim>\<open>ifdOffset\<close> is 2147483647, \<^verbatim>\<open>ifdOffset+2\<close> wraps around to
  \<open>- 2147483647\<close>, the guard \<^verbatim>\<open>ifdOffset < 0 || ifdOffset+2 > len(tiff)\<close> lets both
  pass, and the slice expression \<^verbatim>\<open>tiff[ifdOffset : ifdOffset+2]\<close> is out of range.
  \<^verbatim>\<open>parseExifOrientation\<close> panics on the 8 bytes of the header alone. With a 64-bit
  \<^verbatim>\<open>int\<close> the same payload yields "not found", as the claim says.
\<close>

theorem exifOrientationJPEG_panics_with_32_bit_int:
  "exifOrientationJPEG Int32 exifWrap = None \<and>
   parseExifOrientation Int32 (drop 12 exifWrap) = None \<and>
   goInt Int32 (uint (0x7FFFFFFF :: u32)) = 2147483647 \<and>
   goInt Int32 (2147483647 + 2) = - 2147483647 \<and>
   exifOrientationJPEG Int64 exifWrap = Some (0, False)"
proof -
  have "exifOrientationJPEG Int32 exifWrap = None"
    by code_simp
  moreover have "parseExifOrientation Int32 (drop 12 exifWrap) = None"
    by code_simp
  moreover have "goInt Int32 (uint (0x7FFFFFFF :: u32)) = 2147483647"
    by (simp add: goInt_def intBits_def)
  moreover have "goInt Int32 (2147483647 + 2) = - 2147483647"
    by (simp add: goInt_def intBits_def)
  moreover have "exifOrientationJPEG Int64 exifWrap = Some (0, False)"
    by code_simp
  ultimately show ?thesis by blast
qed

text \<open>The TIFF header of that payload, written out.\<close>

theorem exifOrientationJPEG_panics_with_32_bit_int_witness:
  "parseExifOrientation Int32 [0x4D, 0x4D, 0x00, 0x2A, 0x7F, 0xFF, 0xFF, 0xFF] = None"
  using exifOrientationJPEG_panics_with_32_bit_int by (simp add: exifWrap_def)

text \<open>
  Claim C9. A payload shorter than 4 bytes yields "not found", also when it starts
  with, or is exactly, the JPEG start-of-image marker \<^verbatim>\<open>0xFF 0xD8\<close>, for every width
  of \<^verbatim>\<open>int\<close>.
\<close>

theorem exifOrientationJPEG_short:
  "length data < 4 \<Longrightarrow> exifOrientationJPEG sz data = Some (0, False)"
  by (simp add: exifOrientationJPEG_def)

theorem exifOrientationJPEG_short_witness:
  "length [0xFF, 0xD8 :: u8] < 4 \<and> exifOrientationJPEG Int32 [0xFF, 0xD8] = Some (0, False) \<and>
   exifOrientationJPEG Int64 [0xFF, 0xD8] = Some (0, False)"
  using exifOrientationJPEG_short [of "[0xFF, 0xD8]"] by simp

section \<open>Properties of the Hamming distance\<close>

lemma OnesCount64_card: "OnesCount64 x = int (card {i. i < 64 \<and> bit x i})"
proof -
  have "{i. i < 64 \<and> bit x i} = set (filter (\<lambda>i. bit x i) [0..<64])" by auto
  moreover have "distinct (filter (\<lambda>i. bit x i) [0..<64])" by simp
  ultimately show ?thesis
    unfolding OnesCount64_def by (metis distinct_card)
qed

text \<open>
  Claim C6. \<^verbatim>\<open>HammingDistance a b\<close> is the number of bit positions (of the 64) at which
  \<open>a\<close> and \<open>b\<close> differ, that is the Hamming weight of their XOR; the distance of a
  hash to itself is 0, the distance is symmetric, and it lies between 0 and 64.
\<close>

theorem HammingDistance_weight_xor:
  "HammingDistance a b = int (card {i. i < 64 \<and> bit a i \<noteq> bit b i})
   \<and> HammingDistance a a = 0
   \<and> HammingDistance a b = HammingDistance b a
   \<and> 0 \<le> HammingDistance a b \<and> HammingDistance a b \<le> 64"
proof -
  have 1: "HammingDistance a b = int (card {i. i < 64 \<and> bit a i \<noteq> bit b i})"
    unfolding HammingDistance_def OnesCount64_card by (simp add: bit_xor_iff)
  have 2: "HammingDistance a a = 0"
    unfolding HammingDistance_def OnesCount64_def by simp
  have 3: "HammingDistance a b = HammingDistance b a"
    unfolding HammingDistance_def by (simp add: xor.commute)
  have "length (filter (\<lambda>i. bit (a XOR b) i) [0..<64]) \<le> length [0..<64::nat]"
    by (rule length_filter_le)
  then have 4: "HammingDistance a b \<le> 64"
    unfolding HammingDistance_def OnesCount64_def by simp
  have 5: "0 \<le> HammingDistance a b"
    unfolding HammingDistance_def OnesCount64_def by simp
  from 1 2 3 4 5 show ?thesis by simp
qed

section \<open>Properties of the bit extractor\<close>

lemma hashStep_bit:
  "bit (hashStep b h) n \<longleftrightarrow> n < 64 \<and> (if n = 0 then b else bit h (n - 1))"
proof -
  have p: "bit (push_bit 1 h) n \<longleftrightarrow> 1 \<le> n \<and> n < 64 \<and> bit h (n - 1)"
    by (simp only: bit_push_bit_iff possible_bit_word) simp
  have o: "bit (push_bit 1 h OR 1) n \<longleftrightarrow> bit (push_bit 1 h) n \<or> n = 0"
    by (simp only: bit_or_iff bit_1_iff)
  show ?thesis
    unfolding hashStep_def Let_def using p o by (cases b) (auto simp del: push_bit_of_1)
qed

text \<open>After the loop, bit \<open>n\<close> of the hash is the comparison made \<open>n\<close> steps before the end.\<close>

lemma fold_hashStep_bit:
  "bit (fold hashStep bs h) n \<longleftrightarrow>
     n < 64 \<and> (if n < length bs then rev bs ! n else bit h (n - length bs))"
proof (induction bs arbitrary: h n rule: rev_induct)
  case Nil
  then show ?case by (auto dest: bit_imp_le_length)
next
  case (snoc b bs)
  show ?case
  proof (cases n)
    case 0
    then show ?thesis by (simp add: hashStep_bit)
  next
    case (Suc m)
    then show ?thesis
      using snoc [of h m] by (auto simp: hashStep_bit)
  qed
qed

lemma nested_fold:
  "fold (\<lambda>y h. fold (\<lambda>x h. f y x h) xs h) ys h0 =
   fold (\<lambda>(y, x) h. f y x h) (concat (map (\<lambda>y. map (\<lambda>x. (y, x)) xs) ys)) h0"
proof (induction ys arbitrary: h0)
  case Nil
  then show ?case by simp
next
  case (Cons y ys)
  have "fold (\<lambda>x h. f y x h) xs h0 = fold (\<lambda>(y, x) h. f y x h) (map (\<lambda>x. (y, x)) xs) h0"
    by (simp add: fold_map comp_def)
  then show ?case using Cons by simp
qed

lemma hash_as_fold:
  "hashFromCoeffsImageHash c med = fold hashStep (map (\<lambda>(y, x). c y x > med) positions) 0"
  unfolding hashFromCoeffsImageHash_def positions_def nested_fold
  by (simp add: fold_map comp_def case_prod_unfold)

lemma length_positions: "length positions = 64"
  by (simp add: positions_def length_concat comp_def sum_list_triv)

lemma positions_0: "positions ! 0 = (0, 0)"
  unfolding positions_def by code_simp

lemma hash_bit63: "bit (hashFromCoeffsImageHash c med) 63 \<longleftrightarrow> c 0 0 > med"
proof -
  have "rev (map (\<lambda>(y, x). c y x > med) positions) ! 63 = (\<lambda>(y, x). c y x > med) (positions ! 0)"
    using length_positions by (simp add: rev_nth)
  then show ?thesis
    unfolding hash_as_fold fold_hashStep_bit using length_positions positions_0 by simp
qed

text \<open>
  Claim C1 (the code does not do what the claim and its own comments say). The most
  significant bit of the hash is the outcome of the comparison \<^verbatim>\<open>c[0][0] > med\<close>, as
  for every other position: nothing forces it to 0. For the coefficient matrix with
  1 at \<open>(0, 0)\<close> and 0 elsewhere the median is 0 and the hash is \<open>0x8000000000000000\<close>.
  \<^verbatim>\<open>PHash\<close> returns the result of \<^verbatim>\<open>hashFromCoeffsImageHash\<close> as it is.
\<close>

theorem hashFromCoeffsImageHash_DC_bit_not_forced:
  "(bit (hashFromCoeffsImageHash c med) 63 \<longleftrightarrow> c 0 0 > med) \<and>
   medianImageHash dcOnly = 0 \<and>
   hashFromCoeffsImageHash dcOnly (medianImageHash dcOnly) = 0x8000000000000000 \<and>
   (\<exists>r. Resize resample (Grayscale toGray (Some img)) 32 32 = Some r \<and>
        PHash toGray resample dct (Some img) =
          Some (hashFromCoeffsImageHash (dct (gray32x32 r)) (medianImageHash (dct (gray32x32 r)))))"
proof -
  have m: "medianImageHash dcOnly = 0"
    by code_simp
  have h: "hashFromCoeffsImageHash dcOnly (medianImageHash dcOnly) = 0x8000000000000000"
    by code_simp
  have "\<exists>r. Resize resample (Grayscale toGray (Some img)) 32 32 = Some r"
    by (simp add: Grayscale_def Resize_def split: option.splits prod.splits)
  then obtain r where r: "Resize resample (Grayscale toGray (Some img)) 32 32 = Some r"
    by blast
  then have "PHash toGray resample dct (Some img) =
      Some (hashFromCoeffsImageHash (dct (gray32x32 r)) (medianImageHash (dct (gray32x32 r))))"
    unfolding PHash_def by (simp add: Let_def)
  with r m h hash_bit63 [of c med] show ?thesis by blast
qed

lemma medianWindow_cong:
  assumes "\<And>y x. 1 \<le> y \<Longrightarrow> 1 \<le> x \<Longrightarrow> c' y x = c y x"
  shows "medianWindow c' = medianWindow c"
  unfolding medianWindow_def
  by (intro arg_cong [where f = concat] map_cong refl) (simp add: assms)

lemma set_medianWindow:
  "set (medianWindow c) = {c y x | y x. 1 \<le> y \<and> y < 8 \<and> 1 \<le> x \<and> x < 8}"
  unfolding medianWindow_def by (auto; blast)

lemma length_medianWindow: "length (medianWindow c) = 49"
  unfolding medianWindow_def by (simp add: length_concat comp_def sum_list_triv)

text \<open>
  Claim C2, as stated, fails: the window of the rows and columns from 1 on has 49
  coefficients, not 63, and the threshold is not the element at index 31 of the
  sorted window, nor the element at index 31 of the 63 sorted coefficients that
  remain when only the one at \<open>(0, 0)\<close> is left out. The input is the matrix with
  \<open>8 * y + x\<close> at row \<open>y\<close> and column \<open>x\<close>, whose threshold is 36.
\<close>

theorem medianImageHash_not_index_31:
  "length (medianWindow ramp) \<noteq> 63 \<and>
   medianImageHash ramp = 36 \<and>
   sort (medianWindow ramp) ! 31 = 44 \<and>
   length (allButDC ramp) = 63 \<and>
   sort (allButDC ramp) ! 31 = 32"
proof -
  have "medianImageHash ramp = 36" by code_simp
  moreover have "sort (medianWindow ramp) ! 31 = 44" by code_simp
  moreover have "length (allButDC ramp) = 63"
    unfolding allButDC_def by (simp add: length_concat comp_def sum_list_triv)
  moreover have "sort (allButDC ramp) ! 31 = 32" by code_simp
  ultimately show ?thesis by (simp add: length_medianWindow)
qed

text \<open>
  Claim C2, amended. The threshold is the median of the 49 coefficients at the
  positions with row and column between 1 and 7 (the whole first row and the whole
  first column are left out): these sorted in ascending order, the element at index
  \<open>49 div 2 = 24\<close>. It does not depend on the first row or on the first column.
\<close>

theorem medianImageHash_window_49:
  "length (medianWindow c) = 49 \<and>
   set (medianWindow c) = {c y x | y x. 1 \<le> y \<and> y < 8 \<and> 1 \<le> x \<and> x < 8} \<and>
   medianImageHash c = sort (medianWindow c) ! 24 \<and>
   ((\<forall>y x. 1 \<le> y \<longrightarrow> 1 \<le> x \<longrightarrow> c' y x = c y x) \<longrightarrow> medianImageHash c' = medianImageHash c)"
proof -
  have "medianImageHash c = sort (medianWindow c) ! 24"
    unfolding medianImageHash_def by (simp add: Let_def length_medianWindow)
  moreover have "medianImageHash c' = medianImageHash c"
    if "\<forall>y x. 1 \<le> y \<longrightarrow> 1 \<le> x \<longrightarrow> c' y x = c y x"
    unfolding medianImageHash_def using medianWindow_cong [of c' c] that by simp
  ultimately show ?thesis
    using length_medianWindow [of c] set_medianWindow [of c] by blast
qed

theorem medianImageHash_window_49_witness:
  "medianImageHash ramp = 36 \<and>
   medianImageHash (\<lambda>y x. if y = 0 \<or> x = 0 then 1000 else ramp y x) = 36 \<and>
   length (medianWindow ramp) = 49"
proof -
  have r: "medianImageHash ramp = 36" by code_simp
  have "\<forall>y x. 1 \<le> y \<longrightarrow> 1 \<le> x \<longrightarrow> (if y = 0 \<or> x = 0 then 1000 else ramp y x) = ramp y x"
    by simp
  with medianImageHash_window_49 [of ramp "\<lambda>y x. if y = 0 \<or> x = 0 then 1000 else ramp y x"]
  have "medianImageHash (\<lambda>y x. if y = 0 \<or> x = 0 then 1000 else ramp y x) = medianImageHash ramp"
    and "length (medianWindow ramp) = 49"
    by blast+
  with r show ?thesis by simp
qed

section \<open>Properties of the hash pipeline and of Resize\<close>

text \<open>
  Claim C8. A nil image is not an error: \<^verbatim>\<open>PHash(nil)\<close> returns the all-zero hash,
  whatever the stages of the pipeline are.
\<close>

theorem PHash_nil: "PHash toGray resample dct None = Some 0"
  by (simp add: PHash_def)

text \<open>
  The order of the stages in \<^verbatim>\<open>PHash\<close>: \<^verbatim>\<open>Grayscale\<close> runs on the decoded image,
  \<^verbatim>\<open>Resize\<close> on its result, then \<^verbatim>\<open>gray32x32\<close>, the transform and the bit extractor.
\<close>

lemma PHash_stage_order:
  "PHash toGray resample dct (Some img) =
     (case Resize resample (Some (toGray img)) 32 32 of
        None \<Rightarrow> None
      | Some r \<Rightarrow>
          Some (hashFromCoeffsImageHash (dct (gray32x32 r)) (medianImageHash (dct (gray32x32 r)))))"
  by (simp add: PHash_def Grayscale_def Let_def)

text \<open>
  The luminance of the sample colour and of what the resampling makes of it, and
  the two grids: in the order of the code the grid is 1 everywhere, in the
  documented order it is 0 everywhere.
\<close>

lemma grayY_sample: "grayY (OtherColor 0x01ff 0x00ff 0x00ff 0xffff) = 1"
  by (simp add: grayY_def)

lemma grayY_resized: "grayY (RGBAColor 1 0 0 0xff) = 0"
  by (simp add: grayY_def spread_def)

lemma spread_1: "spread 1 = 0x101" "spread 0 = 0"
  by (simp_all add: spread_def)

lemma Bounds_drawGray: "Bounds (drawGray img) = image_Rect 0 0 (Dx (Bounds img)) (Dy (Bounds img))"
  by (simp add: drawGray_def Let_def)

lemma At_drawGray:
  "In x y (image_Rect 0 0 (Dx (Bounds img)) (Dy (Bounds img))) \<Longrightarrow>
     At (drawGray img) x y = GrayColor (grayY (At img (MinX (Bounds img) + x) (MinY (Bounds img) + y)))"
  by (simp add: drawGray_def Let_def)

lemma rect0: "MinX (image_Rect 0 0 32 32) = 0" "MinY (image_Rect 0 0 32 32) = 0"
  "Dx (image_Rect 0 0 32 32) = 32" "Dy (image_Rect 0 0 32 32) = 32"
  "Dx (image_Rect 0 0 64 64) = 64" "Dy (image_Rect 0 0 64 64) = 64"
  "MinX (image_Rect 0 0 64 64) = 0" "MinY (image_Rect 0 0 64 64) = 0"
  by (simp_all add: image_Rect_def Dx_def Dy_def)

lemma In32: "x < 32 \<Longrightarrow> y < 32 \<Longrightarrow> In (int x) (int y) (image_Rect 0 0 32 32)"
  by (simp add: In_def image_Rect_def)

lemma resizeTarget_64: "Bounds img = image_Rect 0 0 64 64 \<Longrightarrow> resizeTarget img 32 32 = Some (32, 32)"
  by (simp add: resizeTarget_def Let_def rect0)

lemma Resize_64:
  "Bounds img = image_Rect 0 0 64 64 \<Longrightarrow> Resize resample (Some img) 32 32 = Some (resample img 32 32)"
  by (simp add: Resize_def resizeTarget_64)

lemma median_zero: "medianImageHash (\<lambda>v u. 0) = 0"
proof -
  have "medianWindow (\<lambda>v u. 0) = replicate 49 0"
    unfolding medianWindow_def by code_simp
  then show ?thesis
    by (simp add: medianImageHash_def Let_def sorted_replicate sorted_sort_id)
qed

lemma hash_zero: "hashFromCoeffsImageHash (\<lambda>v u. 0) 0 = 0"
  by code_simp

lemma Bounds_rgba64Sample: "Bounds rgba64Sample = image_Rect 0 0 64 64"
  by (simp add: rgba64Sample_def)

lemma grid_resizeFirst:
  assumes "keepsUniform resample"
  shows "constGrid 0 (gray32x32 (drawGray (resample rgba64Sample 32 32)))"
proof -
  let ?R = "resample rgba64Sample 32 32"
  have "\<forall>x y. In x y (Bounds rgba64Sample) \<longrightarrow>
      Color_RGBA (At rgba64Sample x y) = (0x01ff, 0x00ff, 0x00ff, 0xffff)"
    by (simp add: rgba64Sample_def)
  then have R: "Bounds ?R = image_Rect 0 0 32 32"
    "\<And>x y. In x y (image_Rect 0 0 32 32) \<Longrightarrow> At ?R x y = RGBAColor 1 0 0 0xff"
    using assms [unfolded keepsUniform_def, rule_format, of rgba64Sample "0x01ff" "0x00ff" "0x00ff"]
      Bounds_rgba64Sample by simp_all
  have "gray32x32 (drawGray ?R) y x = 0" if "y < 32" "x < 32" for y x
  proof -
    have i: "In (int x) (int y) (image_Rect 0 0 32 32)"
      using that by (rule In32 [rotated])
    have "At (drawGray ?R) (int x) (int y) = GrayColor (grayY (At ?R (int x) (int y)))"
      using At_drawGray [of "int x" "int y" ?R] i by (simp add: R(1) rect0)
    also have "\<dots> = GrayColor 0"
      using R(2) [OF i] by (simp add: grayY_resized)
    finally show ?thesis
      by (simp add: gray32x32_def Bounds_drawGray R(1) rect0 GrayColor_def spread_1)
  qed
  then show ?thesis by (simp add: constGrid_def)
qed

lemma grid_grayFirst:
  assumes "keepsUniform resample"
  shows "constGrid 1 (gray32x32 (resample (drawGray rgba64Sample) 32 32))"
proof -
  let ?G = "drawGray rgba64Sample"
  let ?R = "resample ?G 32 32"
  have b: "Bounds ?G = image_Rect 0 0 64 64"
    by (simp add: Bounds_drawGray Bounds_rgba64Sample rect0)
  have "At ?G x y = GrayColor 1" if "In x y (Bounds ?G)" for x y
    using that At_drawGray [of x y rgba64Sample] unfolding b
    by (simp add: Bounds_rgba64Sample rect0 rgba64Sample_def grayY_sample)
  then have "\<forall>x y. In x y (Bounds ?G) \<longrightarrow> Color_RGBA (At ?G x y) = (0x101, 0x101, 0x101, 0xffff)"
    by (simp add: GrayColor_def spread_1)
  then have R: "Bounds ?R = image_Rect 0 0 32 32"
    "\<And>x y. In x y (image_Rect 0 0 32 32) \<Longrightarrow> At ?R x y = RGBAColor 1 1 1 0xff"
    using assms [unfolded keepsUniform_def, rule_format, of ?G "0x101" "0x101" "0x101"] b
    by simp_all
  have "gray32x32 ?R y x = 1" if "y < 32" "x < 32" for y x
  proof -
    have i: "In (int x) (int y) (image_Rect 0 0 32 32)"
      using that by (rule In32 [rotated])
    show ?thesis
      using R(2) [OF i] by (simp add: gray32x32_def R(1) rect0 spread_1)
  qed
  then show ?thesis by (simp add: constGrid_def)
qed

text \<open>
  When the source has 32 by 32 pixels no stage resamples, and the two orders give
  the same hash.
\<close>

lemma PHash_orders_agree_32x32:
  assumes "Dx (Bounds img) = 32" "Dy (Bounds img) = 32"
  shows "PHash drawGray resample dct (Some img) =
         PHash_resizeFirst drawGray resample dct (Some img)"
proof -
  have t: "resizeTarget i 32 32 = None" if "Dx (Bounds i) = 32" "Dy (Bounds i) = 32" for i
    using that by (simp add: resizeTarget_def Let_def)
  have g: "Dx (Bounds (drawGray img)) = 32" "Dy (Bounds (drawGray img)) = 32"
    using assms by (simp_all add: Bounds_drawGray rect0)
  show ?thesis
    unfolding PHash_def PHash_resizeFirst_def
    by (simp add: Grayscale_def Resize_def t [OF assms] t [OF g] Let_def)
qed

text \<open>The stand-ins have the properties assumed of the libraries.\<close>

lemma keepsUniform_cornerScale: "keepsUniform cornerScale"
  unfolding keepsUniform_def
proof (intro allI impI, elim conjE)
  fix img r g b
  assume b: "Bounds img = image_Rect 0 0 64 64"
    and u: "\<forall>x y. In x y (Bounds img) \<longrightarrow> Color_RGBA (At img x y) = (r, g, b, 0xffff)"
  have "In 0 0 (Bounds img)"
    by (simp add: b In_def image_Rect_def)
  then have "Color_RGBA (At img 0 0) = (r, g, b, 0xffff)"
    using u by blast
  then show "Bounds (cornerScale img 32 32) = image_Rect 0 0 32 32 \<and>
       (\<forall>x y. In x y (image_Rect 0 0 32 32) \<longrightarrow>
          At (cornerScale img 32 32) x y =
            RGBAColor (ucast (drop_bit 8 r)) (ucast (drop_bit 8 g)) (ucast (drop_bit 8 b)) 0xff)"
    by (simp add: cornerScale_def b rect0)
qed

lemma dcTerm_zero: "constGrid 0 pix \<Longrightarrow> dcTerm pix = (\<lambda>v u. 0)"
  by (auto simp: constGrid_def dcTerm_def fun_eq_iff)

lemma dcTerm_one: "constGrid 1 pix \<Longrightarrow> dcTerm pix = (\<lambda>v u. if v = 0 \<and> u = 0 then 32 else 0)"
  by (auto simp: constGrid_def dcTerm_def fun_eq_iff)

text \<open>
  Claim C3 (the code does not do what the claim, the comment of \<^verbatim>\<open>PHash\<close> and the
  README say). \<^verbatim>\<open>PHash\<close> reduces to gray first and resizes second, and the order
  matters: on the 64 by 64 image of the opaque 16-bit colour \<open>(0x01ff, 0x00ff, 0x00ff)\<close>
  the documented order (resize, then gray) gives the hash 0, and the code gives a
  hash whose most significant bit is set. In the order of the code the luminance of
  the colour is 1, the resampling keeps that gray level, the grid is 1 everywhere
  and the coefficient at \<open>(0, 0)\<close> exceeds the median. In the documented order the
  resampling stores the upper 8 bits \<open>(1, 0, 0)\<close> of the channels, whose luminance
  is 0, so that the grid and every coefficient are 0. The libraries enter with
  three facts: the resampling keeps a uniform opaque image uniform, with the upper 8
  bits of its channels (\<open>keepsUniform\<close>); the transform of the grid of zeros is zero;
  and for the grid of ones the coefficient at \<open>(0, 0)\<close>, about 32, exceeds the median
  of the others, which are 0 up to rounding.
\<close>

theorem PHash_stage_order_matters:
  assumes "keepsUniform resample"
    and "\<And>pix. constGrid 0 pix \<Longrightarrow> dct pix = (\<lambda>v u. 0)"
    and "\<And>pix. constGrid 1 pix \<Longrightarrow> medianImageHash (dct pix) < dct pix 0 0"
  shows "PHash_resizeFirst drawGray resample dct (Some rgba64Sample) = Some 0 \<and>
         (\<exists>h. PHash drawGray resample dct (Some rgba64Sample) = Some h \<and> bit h 63) \<and>
         PHash drawGray resample dct (Some rgba64Sample) \<noteq>
           PHash_resizeFirst drawGray resample dct (Some rgba64Sample)"
proof -
  let ?R = "resample rgba64Sample 32 32"
  let ?G = "drawGray rgba64Sample"
  have z: "dct (gray32x32 (drawGray ?R)) = (\<lambda>v u. 0)"
    using assms(2) grid_resizeFirst [OF assms(1)] by blast
  have 1: "PHash_resizeFirst drawGray resample dct (Some rgba64Sample) = Some 0"
    unfolding PHash_resizeFirst_def
    by (simp add: Resize_64 Bounds_rgba64Sample Grayscale_def Let_def z median_zero hash_zero)
  have bG: "Bounds ?G = image_Rect 0 0 64 64"
    by (simp add: Bounds_drawGray Bounds_rgba64Sample rect0)
  let ?c = "dct (gray32x32 (resample ?G 32 32))"
  have d: "medianImageHash ?c < ?c 0 0"
    using assms(3) grid_grayFirst [OF assms(1)] by blast
  have 2: "PHash drawGray resample dct (Some rgba64Sample) =
             Some (hashFromCoeffsImageHash ?c (medianImageHash ?c))"
    unfolding PHash_def by (simp add: Grayscale_def Resize_64 bG Let_def)
  have 3: "bit (hashFromCoeffsImageHash ?c (medianImageHash ?c)) 63"
    using d by (simp add: hash_bit63)
  then have "hashFromCoeffsImageHash ?c (medianImageHash ?c) \<noteq> 0"
    by auto
  with 1 2 3 show ?thesis by simp
qed

text \<open>The same with the stand-ins, whose hash in the order of the code has that bit only.\<close>

theorem PHash_stage_order_matters_witness:
  "PHash_resizeFirst drawGray cornerScale dcTerm (Some rgba64Sample) = Some 0 \<and>
   PHash drawGray cornerScale dcTerm (Some rgba64Sample) = Some 0x8000000000000000"
proof -
  let ?c = "\<lambda>v u. if v = 0 \<and> u = 0 then 32 else 0 :: real"
  have m: "medianImageHash ?c = 0"
    by code_simp
  have h: "hashFromCoeffsImageHash ?c 0 = 0x8000000000000000"
    by code_simp
  have d1: "medianImageHash (dcTerm pix) < dcTerm pix 0 0" if "constGrid 1 pix" for pix
    using dcTerm_one [OF that] m by simp
  have 1: "PHash_resizeFirst drawGray cornerScale dcTerm (Some rgba64Sample) = Some 0"
    using PHash_stage_order_matters [of cornerScale dcTerm] keepsUniform_cornerScale dcTerm_zero d1
    by blast
  have c: "dcTerm (gray32x32 (cornerScale (drawGray rgba64Sample) 32 32)) = ?c"
    using dcTerm_one [OF grid_grayFirst [OF keepsUniform_cornerScale]] .
  have b: "Bounds (drawGray rgba64Sample) = image_Rect 0 0 64 64"
    by (simp add: Bounds_drawGray Bounds_rgba64Sample rect0)
  have 2: "PHash drawGray cornerScale dcTerm (Some rgba64Sample) = Some 0x8000000000000000"
    unfolding PHash_def by (simp add: Grayscale_def Resize_64 b Let_def c m h)
  show ?thesis using 1 2 by simp
qed

lemma aspectDim_div:
  "0 < b \<Longrightarrow> aspectDim known a b = of_int (uint known * a div b)"
proof -
  have "real (unat known) * real_of_int a / real_of_int b = real_of_int (uint known * a) / real_of_int b"
    by simp
  then show ?thesis
    unfolding aspectDim_def by (simp only: floor_divide_of_int_eq)
qed

lemma of_int_u32_eq_0:
  "0 \<le> w \<Longrightarrow> w < 2 ^ 32 \<Longrightarrow> (of_int w :: u32) = 0 \<longleftrightarrow> w = 0"
proof
  assume "(of_int w :: u32) = 0"
  then have "2 ^ 32 dvd w" by (simp add: word_of_int_eq_0_iff)
  then show "w = 0" if "0 \<le> w" "w < 2 ^ 32"
    using that zdvd_imp_le [of "2 ^ 32" w] by (cases "w = 0") auto
qed simp


lemma aspectDim_zero_iff:
  assumes "0 < a" "0 < b" "uint t * a div b < 2 ^ 32"
  shows "aspectDim t a b = 0 \<longleftrightarrow> uint t * a div b = 0"
proof -
  have "0 \<le> uint t * a div b"
    using assms(1,2) by (simp add: pos_imp_zdiv_nonneg_iff)
  then show ?thesis
    using of_int_u32_eq_0 [of "uint t * a div b"] assms(2,3) by (simp add: aspectDim_div)
qed

lemma of_int_dim_nonzero:
  "0 < a \<Longrightarrow> a < 2 ^ 21 \<Longrightarrow> (of_int a :: u32) \<noteq> 0"
  using of_int_u32_eq_0 [of a] by auto

text \<open>
  Claim C5, as stated, fails: the missing dimension is not rounded to the nearest
  integer. For a source of 4 by 3 pixels and the targets 0 and 2 the code goes on
  with the width 2, the integer part of \<open>8 / 3\<close>, where rounding gives 3; for a source
  of 2 by 3 pixels and the targets 0 and 1 the code computes the width 0 and returns
  the source unchanged, where rounding gives 1.
\<close>

theorem Resize_does_not_round:
  "resizeTarget img43 0 2 = Some (2, 2) \<and> aspectDim_rounded 2 4 3 = 3 \<and>
   resizeTarget img23 0 1 = None \<and> aspectDim_rounded 1 2 3 = 1"
proof -
  have a: "aspectDim 2 4 3 = 2" "aspectDim 1 2 3 = 0"
    by (simp_all add: aspectDim_div)
  have "round (8 / 3 :: real) = 3" "round (2 / 3 :: real) = 1"
    by (simp_all add: round_def)
  then have r: "aspectDim_rounded 2 4 3 = 3" "aspectDim_rounded 1 2 3 = 1"
    by (simp_all add: aspectDim_rounded_def)
  have "resizeTarget img43 0 2 = Some (2, 2)"
    unfolding resizeTarget_def img43_def using a
    by (simp add: Let_def image_Rect_def Dx_def Dy_def)
  moreover have "resizeTarget img23 0 1 = None"
    unfolding resizeTarget_def img23_def using a
    by (simp add: Let_def image_Rect_def Dx_def Dy_def)
  ultimately show ?thesis using r by blast
qed

text \<open>
  Claim C5, amended. For a non-nil source of \<open>sw\<close> by \<open>sh\<close> pixels, both positive
  and below \<open>2 ^ 21\<close>, and a target pair of which exactly one dimension is 0 (the
  other is \<open>t\<close>), whenever the integer part of
  \<open>known_target * source_other / source_known\<close> is below \<open>2 ^ 32\<close>, \<^verbatim>\<open>Resize\<close>
  computes the missing dimension as that integer part (the fraction is dropped, not
  rounded), and when this is 0 it returns the source unchanged; otherwise it
  resamples to the computed and the given dimension. Each direction needs the
  bound on its own quotient only: the first conjunct is the missing width, the
  second the missing height.
\<close>

theorem Resize_missing_dimension:
  assumes "sw = Dx (Bounds img)" "sh = Dy (Bounds img)"
    and "0 < sw" "sw < 2 ^ 21" "0 < sh" "sh < 2 ^ 21"
    and "t \<noteq> 0"
  shows "(uint t * sw div sh < 2 ^ 32 \<longrightarrow>
            resizeTarget img 0 t =
              (if uint t * sw div sh = 0 then None else Some (of_int (uint t * sw div sh), t)) \<and>
            Resize resample (Some img) 0 t =
              (if uint t * sw div sh = 0 then Some img
               else Some (resample img (of_int (uint t * sw div sh)) t))) \<and>
         (uint t * sh div sw < 2 ^ 32 \<longrightarrow>
            resizeTarget img t 0 =
              (if uint t * sh div sw = 0 then None else Some (t, of_int (uint t * sh div sw))) \<and>
            Resize resample (Some img) t 0 =
              (if uint t * sh div sw = 0 then Some img
               else Some (resample img t (of_int (uint t * sh div sw)))))"
proof -
  have nz: "(of_int sw :: u32) \<noteq> 0" "(of_int sh :: u32) \<noteq> 0"
    using of_int_dim_nonzero assms(3-6) by auto
  have 1: "resizeTarget img 0 t =
             (if uint t * sw div sh = 0 then None else Some (of_int (uint t * sw div sh), t))"
    if b: "uint t * sw div sh < 2 ^ 32"
  proof -
    have w: "aspectDim t sw sh = 0 \<longleftrightarrow> uint t * sw div sh = 0"
      using aspectDim_zero_iff assms(3,5) b by simp
    show ?thesis
      unfolding resizeTarget_def using nz w assms(1,2,5,7)
      by (simp add: Let_def aspectDim_div)
  qed
  have 2: "resizeTarget img t 0 =
             (if uint t * sh div sw = 0 then None else Some (t, of_int (uint t * sh div sw)))"
    if b: "uint t * sh div sw < 2 ^ 32"
  proof -
    have h: "aspectDim t sh sw = 0 \<longleftrightarrow> uint t * sh div sw = 0"
      using aspectDim_zero_iff assms(3,5) b by simp
    show ?thesis
      unfolding resizeTarget_def using nz h assms(1,2,3,7)
      by (simp add: Let_def aspectDim_div)
  qed
  show ?thesis
    unfolding Resize_def using 1 2 by simp
qed

text \<open>
  The amended claim at four inputs: a source of 4 by 3 pixels with the targets
  \<open>(0, 2)\<close> and \<open>(2, 0)\<close>, a source of 2 by 3 pixels with the targets \<open>(0, 1)\<close>, and a
  source of 1 by 1000000 pixels with the targets \<open>(0, 5000)\<close>, whose missing width
  is 0 (the quotient of the other direction, \<open>5000 * 1000000\<close>, is above \<open>2 ^ 32\<close>
  and plays no part).
\<close>

theorem Resize_missing_dimension_witness:
  "resizeTarget img43 0 2 = Some (2, 2) \<and> resizeTarget img43 2 0 = Some (2, 1) \<and>
   resizeTarget img23 0 1 = None \<and> resizeTarget img1M 0 5000 = None"
proof -
  have b: "Dx (Bounds img43) = 4" "Dy (Bounds img43) = 3"
    "Dx (Bounds img23) = 2" "Dy (Bounds img23) = 3"
    "Dx (Bounds img1M) = 1" "Dy (Bounds img1M) = 1000000"
    by (simp_all add: img43_def img23_def img1M_def image_Rect_def Dx_def Dy_def)
  have "resizeTarget img43 0 2 = Some (2, 2) \<and> resizeTarget img43 2 0 = Some (2, 1)"
    using Resize_missing_dimension [of 4 img43 3 2] b by simp
  moreover have "resizeTarget img23 0 1 = None"
    using Resize_missing_dimension [of 2 img23 3 1] b by simp
  moreover have "resizeTarget img1M 0 5000 = None"
    using Resize_missing_dimension [of 1 img1M 1000000 5000] b by simp
  ultimately show ?thesis by simp
qed

section \<open>Properties of the orientation corrector\<close>





lemma put4_fields [simp]:
  "Rect (put4 d i v) = Rect d" "Stride (put4 d i v) = Stride d"
  "length (Pix (put4 d i v)) = length (Pix d)"
  by (cases v; simp add: put4_def)+

























text \<open>In a well-formed pixel buffer the four bytes of every pixel of the bounds exist.\<close>

lemma wfPix_in_range:
  assumes "wfPix p" "0 \<le> x" "x < Dx (Rect p)" "0 \<le> y" "y < Dy (Rect p)"
  shows "0 \<le> PixOffset p (MinX (Rect p) + x) (MinY (Rect p) + y) \<and>
         PixOffset p (MinX (Rect p) + x) (MinY (Rect p) + y) + 4 \<le> int (length (Pix p))"
proof -
  have s: "0 \<le> Stride p" "4 * Dx (Rect p) \<le> Stride p"
    and l: "(Dy (Rect p) - 1) * Stride p + 4 * Dx (Rect p) \<le> int (length (Pix p))"
    using assms by (auto simp: wfPix_def)
  have o: "PixOffset p (MinX (Rect p) + x) (MinY (Rect p) + y) = y * Stride p + x * 4"
    by (simp add: PixOffset_def)
  have "y * Stride p \<le> (Dy (Rect p) - 1) * Stride p"
    using assms(5) s(1) by (intro mult_right_mono) auto
  moreover have "0 \<le> y * Stride p" using assms(4) s(1) by simp
  ultimately show ?thesis
    unfolding o using assms(2,3) l by linarith
qed


lemma Rect_Set_RGBA [simp]: "Rect (Set_RGBA d x y c) = Rect d"
  by (simp add: Set_RGBA_def)

lemma Rect_copyPixel [simp]: "Rect (copyPixel d i src j) = Rect d"
  by (simp add: copyPixel_def)

lemma Rect_convertPixel [simp]: "Rect (convertPixel d i src j) = Rect d"
  by (simp add: convertPixel_def split: prod.splits)

lemma Rect_NewRGBA [simp]: "Rect (NewRGBA r) = r"
  by (simp add: NewRGBA_def)





















end
